theory Spec2Isabelle
  imports Main "HOL-Library.Word" "HOL-Library.Sublist"
begin

section \<open>Userspace L7 ingestion core (ebpf/l7\_req/main.go)\<close>

text \<open>
  Go's fixed-width unsigned integers are words of the same width. A byte array that the
  program treats as text (\<open>[100]uint8\<close>, \<open>[512]uint8\<close>, a \<open>[]byte\<close> slice, a Go
  \<open>string\<close>) is a list of \<open>char\<close>: a HOL character is exactly one 8-bit byte, and
  the zero byte is \<open>CHR 0x00\<close>.
\<close>

type_synonym bytes = string

subsection \<open>Enumeration constants\<close>

definition BPF_L7_PROTOCOL_UNKNOWN :: "32 word" where "BPF_L7_PROTOCOL_UNKNOWN = 0"
definition BPF_L7_PROTOCOL_HTTP :: "32 word" where "BPF_L7_PROTOCOL_HTTP = 1"
definition BPF_L7_PROTOCOL_AMQP :: "32 word" where "BPF_L7_PROTOCOL_AMQP = 2"
definition BPF_L7_PROTOCOL_POSTGRES :: "32 word" where "BPF_L7_PROTOCOL_POSTGRES = 3"

definition L7_PROTOCOL_HTTP :: string where "L7_PROTOCOL_HTTP = ''HTTP''"
definition L7_PROTOCOL_AMQP :: string where "L7_PROTOCOL_AMQP = ''AMQP''"
definition L7_PROTOCOL_POSTGRES :: string where "L7_PROTOCOL_POSTGRES = ''POSTGRES''"
definition L7_PROTOCOL_UNKNOWN :: string where "L7_PROTOCOL_UNKNOWN = ''UNKNOWN''"

definition BPF_METHOD_UNKNOWN :: "32 word" where "BPF_METHOD_UNKNOWN = 0"
definition BPF_METHOD_GET :: "32 word" where "BPF_METHOD_GET = 1"
definition BPF_METHOD_POST :: "32 word" where "BPF_METHOD_POST = 2"
definition BPF_METHOD_PUT :: "32 word" where "BPF_METHOD_PUT = 3"
definition BPF_METHOD_PATCH :: "32 word" where "BPF_METHOD_PATCH = 4"
definition BPF_METHOD_DELETE :: "32 word" where "BPF_METHOD_DELETE = 5"
definition BPF_METHOD_HEAD :: "32 word" where "BPF_METHOD_HEAD = 6"
definition BPF_METHOD_CONNECT :: "32 word" where "BPF_METHOD_CONNECT = 7"
definition BPF_METHOD_OPTIONS :: "32 word" where "BPF_METHOD_OPTIONS = 8"
definition BPF_METHOD_TRACE :: "32 word" where "BPF_METHOD_TRACE = 9"

definition BPF_AMQP_METHOD_UNKNOWN :: "32 word" where "BPF_AMQP_METHOD_UNKNOWN = 0"
definition BPF_AMQP_METHOD_PUBLISH :: "32 word" where "BPF_AMQP_METHOD_PUBLISH = 1"
definition BPF_AMQP_METHOD_DELIVER :: "32 word" where "BPF_AMQP_METHOD_DELIVER = 2"

definition BPF_POSTGRES_METHOD_UNKNOWN :: "32 word" where "BPF_POSTGRES_METHOD_UNKNOWN = 0"
definition BPF_POSTGRES_METHOD_STATEMENT_CLOSE_OR_CONN_TERMINATE :: "32 word" where
  "BPF_POSTGRES_METHOD_STATEMENT_CLOSE_OR_CONN_TERMINATE = 1"
definition BPF_POSTGRES_METHOD_SIMPLE_QUERY :: "32 word" where
  "BPF_POSTGRES_METHOD_SIMPLE_QUERY = 2"

definition GET :: string where "GET = ''GET''"
definition POST :: string where "POST = ''POST''"
definition PUT :: string where "PUT = ''PUT''"
definition PATCH :: string where "PATCH = ''PATCH''"
definition DELETE :: string where "DELETE = ''DELETE''"
definition HEAD :: string where "HEAD = ''HEAD''"
definition CONNECT :: string where "CONNECT = ''CONNECT''"
definition OPTIONS :: string where "OPTIONS = ''OPTIONS''"
definition TRACE :: string where "TRACE = ''TRACE''"

definition PUBLISH :: string where "PUBLISH = ''PUBLISH''"
definition DELIVER :: string where "DELIVER = ''DELIVER''"

definition CLOSE_OR_TERMINATE :: string where "CLOSE_OR_TERMINATE = ''CLOSE_OR_TERMINATE''"
definition SIMPLE_QUERY :: string where "SIMPLE_QUERY = ''SIMPLE_QUERY''"

subsection \<open>The String methods of the four conversion types\<close>

text \<open>Each \<open>switch\<close> is an \<open>if\<close> chain in the order of its cases, ending in the default.\<close>

definition L7ProtocolConversion_String :: "32 word \<Rightarrow> string" where
  "L7ProtocolConversion_String e =
     (if e = BPF_L7_PROTOCOL_HTTP then L7_PROTOCOL_HTTP
      else if e = BPF_L7_PROTOCOL_AMQP then L7_PROTOCOL_AMQP
      else if e = BPF_L7_PROTOCOL_POSTGRES then L7_PROTOCOL_POSTGRES
      else if e = BPF_L7_PROTOCOL_UNKNOWN then L7_PROTOCOL_UNKNOWN
      else ''Unknown'')"

definition HTTPMethodConversion_String :: "32 word \<Rightarrow> string" where
  "HTTPMethodConversion_String e =
     (if e = BPF_METHOD_GET then GET
      else if e = BPF_METHOD_POST then POST
      else if e = BPF_METHOD_PUT then PUT
      else if e = BPF_METHOD_PATCH then PATCH
      else if e = BPF_METHOD_DELETE then DELETE
      else if e = BPF_METHOD_HEAD then HEAD
      else if e = BPF_METHOD_CONNECT then CONNECT
      else if e = BPF_METHOD_OPTIONS then OPTIONS
      else if e = BPF_METHOD_TRACE then TRACE
      else ''Unknown'')"

definition RabbitMQMethodConversion_String :: "32 word \<Rightarrow> string" where
  "RabbitMQMethodConversion_String e =
     (if e = BPF_AMQP_METHOD_PUBLISH then PUBLISH
      else if e = BPF_AMQP_METHOD_DELIVER then DELIVER
      else ''Unknown'')"

definition PostgresMethodConversion_String :: "32 word \<Rightarrow> string" where
  "PostgresMethodConversion_String e =
     (if e = BPF_POSTGRES_METHOD_STATEMENT_CLOSE_OR_CONN_TERMINATE then CLOSE_OR_TERMINATE
      else if e = BPF_POSTGRES_METHOD_SIMPLE_QUERY then SIMPLE_QUERY
      else ''Unknown'')"

subsection \<open>Records\<close>

text \<open>
  Modelled from the spec: the declaration of \<open>bpfL7Event\<close> is generated by bpf2go and is
  not among the sources. The fields that \<open>DeployAndWait\<close> copies into \<open>L7Event\<close> or
  passes to \<open>uint8ToBool\<close> have the types those uses force; \<open>Protocol\<close> and
  \<open>Method\<close>, which the code only converts to the \<open>uint32\<close> conversion types, are the
  32-bit unsigned discriminants of section 3.1 of the specification.
\<close>

record bpfL7Event =
  Fd :: "64 word"
  WriteTimeNs :: "64 word"
  Pid :: "32 word"
  Status :: "32 word"
  Duration :: "64 word"
  Protocol :: "32 word"
  Method :: "32 word"
  Payload :: bytes
  PayloadSize :: "32 word"
  PayloadReadComplete :: "8 word"
  Failed :: "8 word"
  IsTls :: "8 word"

record L7Event =
  Fd :: "64 word"
  Pid :: "32 word"
  Status :: "32 word"
  Duration :: "64 word"
  Protocol :: string
  Tls :: bool
  Method :: string
  Payload :: bytes
  PayloadSize :: "32 word"
  PayloadReadComplete :: bool
  Failed :: bool
  WriteTimeNs :: "64 word"

subsection \<open>Host log entries\<close>

text \<open>
  An entry of the process-wide structured logger: its level, the typed fields in the
  order they were added, and the message.
\<close>

datatype log_level = DebugLevel | InfoLevel | WarnLevel | ErrorLevel | FatalLevel

datatype log_field =
    Str string string
  | Uint16 string "16 word"
  | Uint32 string "32 word"
  | Uint64 string "64 word"

datatype host_log =
  HostLog (entry_level: log_level) (entry_fields: "log_field list") (entry_msg: string)

subsection \<open>The L7 event task\<close>

definition uint8ToBool :: "8 word \<Rightarrow> bool" where
  "uint8ToBool num = (num \<noteq> 0)"

text \<open>The \<open>switch protocol\<close> of the per-event goroutine, on the decoded protocol string.\<close>

definition method_of_protocol :: "string \<Rightarrow> 32 word \<Rightarrow> string" where
  "method_of_protocol protocol m =
     (if protocol = L7_PROTOCOL_HTTP then HTTPMethodConversion_String m
      else if protocol = L7_PROTOCOL_AMQP then RabbitMQMethodConversion_String m
      else if protocol = L7_PROTOCOL_POSTGRES then PostgresMethodConversion_String m
      else ''Unknown'')"

text \<open>
  The goroutine started for one raw record: the debug entries it logs (one, when the
  record is TLS) and the event it sends on the channel.
\<close>

definition l7_tls_log :: "bpfL7Event \<Rightarrow> string \<Rightarrow> string \<Rightarrow> host_log" where
  "l7_tls_log l7Event method protocol =
     HostLog DebugLevel
       [Uint16 ''fd'' (ucast (bpfL7Event.Fd l7Event)),
        Uint32 ''pid'' (bpfL7Event.Pid l7Event),
        Str ''payload'' (bpfL7Event.Payload l7Event),
        Str ''method'' method,
        Str ''protocol'' protocol,
        Uint32 ''status'' (bpfL7Event.Status l7Event)]
       ''l7tls event''"

definition l7_event_logs :: "bpfL7Event \<Rightarrow> host_log list" where
  "l7_event_logs l7Event =
     (let protocol = L7ProtocolConversion_String (bpfL7Event.Protocol l7Event);
          method = method_of_protocol protocol (bpfL7Event.Method l7Event)
      in if uint8ToBool (IsTls l7Event) then [l7_tls_log l7Event method protocol] else [])"

definition l7_event_sent :: "bpfL7Event \<Rightarrow> L7Event" where
  "l7_event_sent l7Event =
     (let protocol = L7ProtocolConversion_String (bpfL7Event.Protocol l7Event);
          method = method_of_protocol protocol (bpfL7Event.Method l7Event)
      in \<lparr> Fd = bpfL7Event.Fd l7Event,
           Pid = bpfL7Event.Pid l7Event,
           Status = bpfL7Event.Status l7Event,
           Duration = bpfL7Event.Duration l7Event,
           Protocol = protocol,
           Tls = uint8ToBool (IsTls l7Event),
           Method = method,
           Payload = bpfL7Event.Payload l7Event,
           PayloadSize = bpfL7Event.PayloadSize l7Event,
           PayloadReadComplete = uint8ToBool (bpfL7Event.PayloadReadComplete l7Event),
           Failed = uint8ToBool (bpfL7Event.Failed l7Event),
           WriteTimeNs = bpfL7Event.WriteTimeNs l7Event \<rparr>)"

subsection \<open>The log pump\<close>

text \<open>
  Modelled from the spec: the declaration of \<open>bpfLogMessage\<close> is generated by bpf2go and
  is not among the sources. \<open>FuncName\<close> and \<open>LogMsg\<close> are passed to \<open>findEndIndex\<close>,
  so they are \<open>[100]uint8\<close>; \<open>Pid\<close> is logged with \<open>Uint32\<close>, the three arguments
  are stored in \<open>uint64\<close> variables; \<open>Level\<close> is the enum byte of section 3.1 of the
  specification.
\<close>

record bpfLogMessage =
  Level :: "8 word"
  Pid :: "32 word"
  FuncName :: bytes
  LogMsg :: bytes
  Arg1 :: "64 word"
  Arg2 :: "64 word"
  Arg3 :: "64 word"

text \<open>The \<open>range\<close> loop of \<open>findEndIndex\<close>, with its index \<open>i\<close>.\<close>

fun findEndIndex_loop :: "nat \<Rightarrow> bytes \<Rightarrow> nat" where
  "findEndIndex_loop i [] = i"
| "findEndIndex_loop i (v # b) = (if v = CHR 0x00 then i else findEndIndex_loop (Suc i) b)"

definition findEndIndex :: "bytes \<Rightarrow> nat" where
  "findEndIndex b = findEndIndex_loop 0 b"

text \<open>
  \<open>bytes.Index s sep\<close>: the index of the first instance of \<open>sep\<close> in \<open>s\<close>, if any.
  \<open>bytes.SplitN s sep n\<close> for a separator that is not empty: at most \<open>n\<close> subslices,
  the last one being the unsplit remainder; \<open>n = 0\<close> gives the nil result.
\<close>

fun Index :: "bytes \<Rightarrow> bytes \<Rightarrow> nat option" where
  "Index [] sep = (if sep = [] then Some 0 else None)"
| "Index (c # s) sep =
     (if prefix sep (c # s) then Some 0 else map_option Suc (Index s sep))"

fun SplitN :: "bytes \<Rightarrow> bytes \<Rightarrow> nat \<Rightarrow> bytes list" where
  "SplitN s sep 0 = []"
| "SplitN s sep (Suc n) =
     (if n = 0 then [s]
      else (case Index s sep of
              None \<Rightarrow> [s]
            | Some m \<Rightarrow> take m s # SplitN (drop (m + length sep) s) sep n))"

text \<open>\<open>log.Logger.Warn().Msgf(format + "%s", string(raw))\<close>.\<close>

definition warn_msgf :: "string \<Rightarrow> bytes \<Rightarrow> host_log" where
  "warn_msgf format raw = HostLog WarnLevel [] (format @ raw)"

type_synonym arg = "string \<times> 64 word"

text \<open>
  The closure \<open>parseLogMessage\<close>: the warnings it logs, the \<open>args\<close> variable of the
  enclosing function after the call, and the returned slice (\<open>None\<close> for \<open>nil\<close>; the
  first part of a successful split is a subslice of \<open>input\<close> and never \<open>nil\<close>).
\<close>

definition parseLogMessage ::
  "bytes \<Rightarrow> bpfLogMessage \<Rightarrow> arg list \<Rightarrow> host_log list \<times> arg list \<times> bytes option" where
  "parseLogMessage input logMsg args =
     (let parts = SplitN input '' -- '' 2 in
      if length parts \<noteq> 2
      then ([warn_msgf ''invalid ebpf log message: '' input], args, None)
      else
        let parsedArgs = SplitN (parts ! 1) ''|'' 3 in
        if length parsedArgs \<noteq> 3
        then ([warn_msgf ''invalid ebpf log message not 3 args: '' input], args, None)
        else ([],
              args[0 := (parsedArgs ! 0, Arg1 logMsg),
                   1 := (parsedArgs ! 1, Arg2 logMsg),
                   2 := (parsedArgs ! 2, Arg3 logMsg)],
              Some (parts ! 0)))"

text \<open>The entry built in each of the four cases of \<open>switch logMsg.Level\<close>.\<close>

definition ebpf_log :: "log_level \<Rightarrow> bytes \<Rightarrow> 32 word \<Rightarrow> arg list \<Rightarrow> bytes \<Rightarrow> host_log" where
  "ebpf_log lvl funcName pid args logMessage =
     HostLog lvl
       [Str ''func'' funcName,
        Uint32 ''pid'' pid,
        Uint64 (fst (args ! 0)) (snd (args ! 0)),
        Uint64 (fst (args ! 1)) (snd (args ! 1)),
        Uint64 (fst (args ! 2)) (snd (args ! 2)),
        Str ''log-msg'' logMessage]
       ''ebpf-log''"

text \<open>
  The body of the log pump's \<open>read\<close> for one sample that is not empty, from the cast of
  the sample to \<open>bpfLogMessage\<close> on: the host log entries it emits, in order.
\<close>

definition logs_read :: "bpfLogMessage \<Rightarrow> host_log list" where
  "logs_read logMsg =
     (let funcEnd = findEndIndex (FuncName logMsg);
          msgEnd = findEndIndex (LogMsg logMsg);
          logMessage = take msgEnd (LogMsg logMsg);
          funcName = take funcEnd (FuncName logMsg);
          args = [([], 0), ([], 0), ([], 0)]
      in case parseLogMessage logMessage logMsg args of
           (warns, args, None) \<Rightarrow>
             warns @ [warn_msgf ''invalid ebpf log message: '' (LogMsg logMsg)]
         | (warns, args, Some logMessage) \<Rightarrow>
             warns @
             (if Level logMsg = 0
              then [ebpf_log DebugLevel funcName (bpfLogMessage.Pid logMsg) args logMessage]
              else if Level logMsg = 1
              then [ebpf_log InfoLevel funcName (bpfLogMessage.Pid logMsg) args logMessage]
              else if Level logMsg = 2
              then [ebpf_log WarnLevel funcName (bpfLogMessage.Pid logMsg) args logMessage]
              else if Level logMsg = 3
              then [ebpf_log ErrorLevel funcName (bpfLogMessage.Pid logMsg) args logMessage]
              else []))"

subsection \<open>Startup and teardown of DeployAndWait\<close>

text \<open>
  The eight tracepoints, in the order \<open>DeployAndWait\<close> links them, and the two perf
  readers.
\<close>

datatype tracepoint =
    sys_enter_read | sys_enter_write | sys_exit_read | sys_enter_sendto
  | sys_enter_recvfrom | sys_exit_recvfrom | sys_exit_sendto | sys_exit_write

fun tracepoint_name :: "tracepoint \<Rightarrow> string" where
  "tracepoint_name sys_enter_read = ''sys_enter_read''"
| "tracepoint_name sys_enter_write = ''sys_enter_write''"
| "tracepoint_name sys_exit_read = ''sys_exit_read''"
| "tracepoint_name sys_enter_sendto = ''sys_enter_sendto''"
| "tracepoint_name sys_enter_recvfrom = ''sys_enter_recvfrom''"
| "tracepoint_name sys_exit_recvfrom = ''sys_exit_recvfrom''"
| "tracepoint_name sys_exit_sendto = ''sys_exit_sendto''"
| "tracepoint_name sys_exit_write = ''sys_exit_write''"

definition link_order :: "tracepoint list" where
  "link_order =
     [sys_enter_read, sys_enter_write, sys_exit_read, sys_enter_sendto,
      sys_enter_recvfrom, sys_exit_recvfrom, sys_exit_sendto, sys_exit_write]"

datatype reader = l7Events | logs

text \<open>
  What the function does to the world, as a trace: log entries, links made and closed,
  readers opened and closed, the loaded objects closed, and the end of the process.
\<close>

datatype effect =
    Logged host_log
  | Linked tracepoint
  | LinkClosed tracepoint
  | ReaderOpened reader
  | ReaderClosed reader
  | ObjectsClosed
  | OsExit

text \<open>The calls registered with \<open>defer\<close>, and what each does when it runs.\<close>

datatype deferred = CloseObjects | CloseLink tracepoint | CloseReader reader

definition info_msg :: "string \<Rightarrow> effect" where
  "info_msg m = Logged (HostLog InfoLevel [] m)"

fun run_deferred :: "deferred \<Rightarrow> effect list" where
  "run_deferred CloseObjects = [ObjectsClosed]"
| "run_deferred (CloseLink t) =
     [info_msg (''closing '' @ tracepoint_name t @ '' tracepoint''), LinkClosed t]"
| "run_deferred (CloseReader r) =
     [info_msg ''closing l7 events perf event array reader'', ReaderClosed r]"

text \<open>
  Modelled from the spec: \<open>log.Logger\<close> is the zerolog logger of the repository's
  \<open>log\<close> package, which is not among the sources. A fatal entry aborts the process
  (sections 4.2 and 7 of the specification): the entry is written and the process ends
  through \<open>os.Exit(1)\<close>. Go runs deferred calls when a function returns or panics; it
  runs none of them when the process exits.
\<close>

definition Fatal_Err_Msg :: "string \<Rightarrow> string \<Rightarrow> effect list" where
  "Fatal_Err_Msg err m = [Logged (HostLog FatalLevel [Str ''error'' err] m), OsExit]"

text \<open>
  The effects of a failed \<open>link.Tracepoint\<close>: for \<open>sys_enter_write\<close> the verifier log
  is written at warn level first.
\<close>

definition link_failed :: "string \<Rightarrow> tracepoint \<Rightarrow> string \<Rightarrow> effect list" where
  "link_failed verifierLog t err =
     (if t = sys_enter_write
      then [Logged (HostLog WarnLevel [Str ''verifier log'' verifierLog] ''verifier log'')]
      else [])
     @ Fatal_Err_Msg err (''link '' @ tracepoint_name t @ '' tracepoint'')"

text \<open>
  The block "link programs": \<open>tracepoint t\<close> is the error of \<open>link.Tracepoint\<close> for
  \<open>t\<close> (\<open>None\<close> for \<open>nil\<close>); \<open>ds\<close> is the stack of deferred calls, the latest first.
  The result is the trace and the stack of deferred calls, or \<open>None\<close> when the process
  has exited.
\<close>

fun link_programs ::
  "(tracepoint \<Rightarrow> string option) \<Rightarrow> string \<Rightarrow> tracepoint list \<Rightarrow> deferred list
     \<Rightarrow> effect list \<times> deferred list option" where
  "link_programs tracepoint verifierLog [] ds = ([], Some ds)"
| "link_programs tracepoint verifierLog (t # ts) ds =
     (case tracepoint t of
        Some err \<Rightarrow> (link_failed verifierLog t err, None)
      | None \<Rightarrow>
          (case link_programs tracepoint verifierLog ts (CloseLink t # ds) of
             (es, r) \<Rightarrow> (Linked t # info_msg (tracepoint_name t @ '' linked'') # es, r)))"

text \<open>The two \<open>perf.NewReader\<close> calls, with \<open>newReader r\<close> the error of the call for \<open>r\<close>.\<close>

fun open_readers ::
  "(reader \<Rightarrow> string option) \<Rightarrow> reader list \<Rightarrow> deferred list
     \<Rightarrow> effect list \<times> deferred list option" where
  "open_readers newReader [] ds = ([], Some ds)"
| "open_readers newReader (r # rs) ds =
     (case newReader r of
        Some err \<Rightarrow> (Fatal_Err_Msg err ''error creating perf event array reader'', None)
      | None \<Rightarrow>
          (case open_readers newReader rs (CloseReader r # ds) of
             (es, res) \<Rightarrow> (ReaderOpened r # es, res)))"

text \<open>
  \<open>DeployAndWait\<close> from its entry to the exit of the process or, after the context is
  cancelled, to its return, when the deferred calls run, the latest first. The entries
  written by the two pumps in between are those of \<open>logs_read\<close> and \<open>l7_event_logs\<close>
  and are not part of this trace.
\<close>

definition DeployAndWait ::
  "(tracepoint \<Rightarrow> string option) \<Rightarrow> string \<Rightarrow> (reader \<Rightarrow> string option) \<Rightarrow> effect list" where
  "DeployAndWait tracepoint verifierLog newReader =
     (case link_programs tracepoint verifierLog link_order [CloseObjects] of
        (es, None) \<Rightarrow> es
      | (es, Some ds) \<Rightarrow>
          (case open_readers newReader [l7Events, logs] ds of
             (es', None) \<Rightarrow> es @ es'
           | (es', Some ds') \<Rightarrow> es @ es' @ concat (map run_deferred ds')))"

subsection \<open>The tables and the grammar of the specification\<close>

text \<open>
  The enumeration tables of sections 3.1 and 3.3 of the specification, as association
  lists from discriminant to string; decoding with a table, with the default
  \<open>"Unknown"\<close>; and looking a string back up in a table.
\<close>

definition spec_protocols :: "(32 word \<times> string) list" where
  "spec_protocols = [(0, ''UNKNOWN''), (1, ''HTTP''), (2, ''AMQP''), (3, ''POSTGRES'')]"

definition spec_http_methods :: "(32 word \<times> string) list" where
  "spec_http_methods =
     [(1, ''GET''), (2, ''POST''), (3, ''PUT''), (4, ''PATCH''), (5, ''DELETE''),
      (6, ''HEAD''), (7, ''CONNECT''), (8, ''OPTIONS''), (9, ''TRACE'')]"

definition spec_amqp_methods :: "(32 word \<times> string) list" where
  "spec_amqp_methods = [(1, ''PUBLISH''), (2, ''DELIVER'')]"

definition spec_postgres_methods :: "(32 word \<times> string) list" where
  "spec_postgres_methods = [(1, ''CLOSE_OR_TERMINATE''), (2, ''SIMPLE_QUERY'')]"

definition table_decode :: "(32 word \<times> string) list \<Rightarrow> 32 word \<Rightarrow> string" where
  "table_decode table e = (case map_of table e of Some s \<Rightarrow> s | None \<Rightarrow> ''Unknown'')"

definition table_encode :: "(32 word \<times> string) list \<Rightarrow> string \<Rightarrow> 32 word option" where
  "table_encode table s = map_of (map prod.swap table) s"

text \<open>The levels of a raw log message, section 3.1 of the specification.\<close>

definition spec_level :: "8 word \<Rightarrow> log_level option" where
  "spec_level l =
     (if l = 0 then Some DebugLevel else if l = 1 then Some InfoLevel
      else if l = 2 then Some WarnLevel else if l = 3 then Some ErrorLevel else None)"

text \<open>
  The grammar \<open>BODY " -- " NAME "|" NAME "|" NAME\<close> of the specification: the message
  has a delimiter, and the text after the first delimiter splits on \<open>|\<close> into exactly
  three tokens, that is, it holds exactly two bars.
\<close>

definition spec_grammar :: "bytes \<Rightarrow> bool" where
  "spec_grammar s =
     (case Index s '' -- '' of
        None \<Rightarrow> False
      | Some m \<Rightarrow> count_list (drop (m + 4) s) (CHR ''|'') = 2)"

text \<open>
  What the two \<open>SplitN\<close> calls of the code accept: a delimiter, and at least two bars
  after the first delimiter.
\<close>

definition accepted :: "bytes \<Rightarrow> bool" where
  "accepted s =
     (case Index s '' -- '' of
        None \<Rightarrow> False
      | Some m \<Rightarrow> 2 \<le> count_list (drop (m + 4) s) (CHR ''|''))"

subsection \<open>Observations on the emitted entries\<close>

definition log_input :: "bpfLogMessage \<Rightarrow> bytes" where
  "log_input logMsg = take (findEndIndex (LogMsg logMsg)) (LogMsg logMsg)"

definition is_ebpf_log :: "host_log \<Rightarrow> bool" where
  "is_ebpf_log e = (entry_msg e = ''ebpf-log'')"

definition is_warn :: "host_log \<Rightarrow> bool" where
  "is_warn e = (entry_level e = WarnLevel)"

fun lookup_Str :: "string \<Rightarrow> log_field list \<Rightarrow> string option" where
  "lookup_Str k [] = None"
| "lookup_Str k (Str k' v # fs) = (if k = k' then Some v else lookup_Str k fs)"
| "lookup_Str k (_ # fs) = lookup_Str k fs"

fun lookup_Uint16 :: "string \<Rightarrow> log_field list \<Rightarrow> 16 word option" where
  "lookup_Uint16 k [] = None"
| "lookup_Uint16 k (Uint16 k' v # fs) = (if k = k' then Some v else lookup_Uint16 k fs)"
| "lookup_Uint16 k (_ # fs) = lookup_Uint16 k fs"

text \<open>The links closed in a trace, in the order in which they are closed.\<close>

fun closed_links :: "effect list \<Rightarrow> tracepoint list" where
  "closed_links [] = []"
| "closed_links (LinkClosed t # es) = t # closed_links es"
| "closed_links (_ # es) = closed_links es"

subsection \<open>The literal records of the end-to-end scenarios\<close>

definition c_string :: "nat \<Rightarrow> string \<Rightarrow> bytes" where
  "c_string n s = s @ replicate (n - length s) (CHR 0x00)"

definition scenario_http_get :: bpfL7Event where
  "scenario_http_get =
     \<lparr> bpfL7Event.Fd = 12, bpfL7Event.WriteTimeNs = 1700000000, bpfL7Event.Pid = 7777,
       bpfL7Event.Status = 200, bpfL7Event.Duration = 125000, bpfL7Event.Protocol = 1,
       bpfL7Event.Method = 1, bpfL7Event.Payload = c_string 512 ''GET / HTTP/1.1'',
       bpfL7Event.PayloadSize = 14, bpfL7Event.PayloadReadComplete = 1,
       bpfL7Event.Failed = 0, IsTls = 0 \<rparr>"

definition scenario_amqp_tls :: bpfL7Event where
  "scenario_amqp_tls =
     \<lparr> bpfL7Event.Fd = 65548, bpfL7Event.WriteTimeNs = 0, bpfL7Event.Pid = 1,
       bpfL7Event.Status = 0, bpfL7Event.Duration = 0, bpfL7Event.Protocol = 2,
       bpfL7Event.Method = 1, bpfL7Event.Payload = c_string 512 ''abc'',
       bpfL7Event.PayloadSize = 3, bpfL7Event.PayloadReadComplete = 1,
       bpfL7Event.Failed = 0, IsTls = 1 \<rparr>"

definition scenario_unknown_protocol :: bpfL7Event where
  "scenario_unknown_protocol =
     \<lparr> bpfL7Event.Fd = 0, bpfL7Event.WriteTimeNs = 0, bpfL7Event.Pid = 0,
       bpfL7Event.Status = 0, bpfL7Event.Duration = 0, bpfL7Event.Protocol = 9,
       bpfL7Event.Method = 3, bpfL7Event.Payload = c_string 512 [],
       bpfL7Event.PayloadSize = 0, bpfL7Event.PayloadReadComplete = 0,
       bpfL7Event.Failed = 0, IsTls = 0 \<rparr>"

definition scenario_protocol_zero :: bpfL7Event where
  "scenario_protocol_zero = scenario_unknown_protocol \<lparr> bpfL7Event.Protocol := 0 \<rparr>"

definition scenario_log :: "8 word \<Rightarrow> string \<Rightarrow> bpfLogMessage" where
  "scenario_log l m =
     \<lparr> Level = l, Pid = 42, FuncName = c_string 100 ''handle_read'',
       LogMsg = c_string 100 m, Arg1 = 7, Arg2 = 128, Arg3 = 3 \<rparr>"

text \<open>A start in which \<open>link.Tracepoint\<close> fails for one tracepoint only.\<close>

definition tracepoint_fails_at :: "tracepoint \<Rightarrow> tracepoint \<Rightarrow> string option" where
  "tracepoint_fails_at bad t = (if t = bad then Some ''permission denied'' else None)"

section \<open>Lemmas\<close>

subsection \<open>Unfolding the constants\<close>

lemmas protocol_consts =
  BPF_L7_PROTOCOL_UNKNOWN_def BPF_L7_PROTOCOL_HTTP_def BPF_L7_PROTOCOL_AMQP_def
  BPF_L7_PROTOCOL_POSTGRES_def L7_PROTOCOL_HTTP_def L7_PROTOCOL_AMQP_def
  L7_PROTOCOL_POSTGRES_def L7_PROTOCOL_UNKNOWN_def

lemmas method_consts =
  BPF_METHOD_UNKNOWN_def BPF_METHOD_GET_def BPF_METHOD_POST_def BPF_METHOD_PUT_def
  BPF_METHOD_PATCH_def BPF_METHOD_DELETE_def BPF_METHOD_HEAD_def BPF_METHOD_CONNECT_def
  BPF_METHOD_OPTIONS_def BPF_METHOD_TRACE_def
  BPF_AMQP_METHOD_UNKNOWN_def BPF_AMQP_METHOD_PUBLISH_def BPF_AMQP_METHOD_DELIVER_def
  BPF_POSTGRES_METHOD_UNKNOWN_def BPF_POSTGRES_METHOD_STATEMENT_CLOSE_OR_CONN_TERMINATE_def
  BPF_POSTGRES_METHOD_SIMPLE_QUERY_def
  GET_def POST_def PUT_def PATCH_def DELETE_def HEAD_def CONNECT_def OPTIONS_def TRACE_def
  PUBLISH_def DELIVER_def CLOSE_OR_TERMINATE_def SIMPLE_QUERY_def

lemmas String_defs =
  L7ProtocolConversion_String_def HTTPMethodConversion_String_def
  RabbitMQMethodConversion_String_def PostgresMethodConversion_String_def

lemmas spec_tables =
  spec_protocols_def spec_http_methods_def spec_amqp_methods_def spec_postgres_methods_def

lemmas l7_defs =
  l7_event_sent_def l7_event_logs_def method_of_protocol_def String_defs
  protocol_consts method_consts uint8ToBool_def Let_def

subsection \<open>End of a C string\<close>

lemma findEndIndex_loop_eq:
  "findEndIndex_loop i b = i + length (takeWhile (\<lambda>v. v \<noteq> CHR 0x00) b)"
  by (induction b arbitrary: i) simp_all

lemma findEndIndex_eq: "findEndIndex b = length (takeWhile (\<lambda>v. v \<noteq> CHR 0x00) b)"
  by (simp add: findEndIndex_def findEndIndex_loop_eq)

lemma log_input_eq: "log_input logMsg = takeWhile (\<lambda>v. v \<noteq> CHR 0x00) (LogMsg logMsg)"
  by (simp add: log_input_def findEndIndex_eq takeWhile_eq_take [symmetric])

lemma c_string_trim:
  assumes "CHR 0x00 \<notin> set s" and "length s < n"
  shows "take (findEndIndex (c_string n s)) (c_string n s) = s"
proof -
  from assms(2) obtain k where k: "n - length s = Suc k"
    by (cases "n - length s") simp_all
  have "takeWhile (\<lambda>v. v \<noteq> CHR 0x00) (s @ CHR 0x00 # replicate k (CHR 0x00)) =
          takeWhile (\<lambda>v. v \<noteq> CHR 0x00) s"
    by (rule takeWhile_tail) simp
  also from assms(1) have "\<dots> = s" by auto
  finally show ?thesis using k
    by (simp add: c_string_def findEndIndex_eq takeWhile_eq_take [symmetric])
qed

lemma log_input_scenario:
  assumes "CHR 0x00 \<notin> set m" and "length m < 100"
  shows "log_input (scenario_log l m) = m"
  using c_string_trim [OF assms] by (simp add: log_input_def scenario_log_def)

lemma funcName_scenario:
  "take (findEndIndex (FuncName (scenario_log l m))) (FuncName (scenario_log l m)) = ''handle_read''"
  using c_string_trim [of "''handle_read''" 100] by (simp add: scenario_log_def)

subsection \<open>Index and SplitN\<close>

lemma Index_le: "Index s sep = Some m \<Longrightarrow> m + length sep \<le> length s"
proof (induction s arbitrary: m)
  case Nil
  then show ?case by (simp split: if_splits)
next
  case (Cons c s)
  show ?case
  proof (cases "prefix sep (c # s)")
    case True
    with Cons.prems prefix_length_le [OF True] show ?thesis by simp
  next
    case False
    with Cons.prems obtain k where "Index s sep = Some k" "m = Suc k" by auto
    with Cons.IH show ?thesis by simp
  qed
qed

lemma Index_decomp: "Index s sep = Some m \<Longrightarrow> s = take m s @ sep @ drop (m + length sep) s"
proof (induction s arbitrary: m)
  case Nil
  then show ?case by (simp split: if_splits)
next
  case (Cons c s)
  show ?case
  proof (cases "prefix sep (c # s)")
    case True
    with Cons.prems have "m = 0" by simp
    moreover from True obtain t where "c # s = sep @ t" by (auto simp: prefix_def)
    ultimately show ?thesis by simp
  next
    case False
    with Cons.prems obtain k where k: "Index s sep = Some k" "m = Suc k" by auto
    with Cons.IH [OF k(1)] show ?thesis by simp
  qed
qed

lemma Index_char_None: "Index s [c] = None \<longleftrightarrow> c \<notin> set s"
  by (induction s) auto

lemma Index_char_Some:
  "Index s [c] = Some m \<Longrightarrow> c \<notin> set (take m s) \<and> count_list s c = Suc (count_list (drop (Suc m) s) c)"
proof (induction s arbitrary: m)
  case Nil
  then show ?case by simp
next
  case (Cons d s)
  show ?case
  proof (cases "d = c")
    case True
    with Cons.prems show ?thesis by simp
  next
    case False
    with Cons.prems obtain k where k: "Index s [c] = Some k" "m = Suc k" by auto
    with Cons.IH [OF k(1)] False show ?thesis by simp
  qed
qed

lemma SplitN_2:
  "SplitN s sep 2 =
     (case Index s sep of None \<Rightarrow> [s] | Some m \<Rightarrow> [take m s, drop (m + length sep) s])"
  by (simp add: numeral_2_eq_2 split: option.split)

lemma SplitN_3:
  "SplitN s sep 3 =
     (case Index s sep of
        None \<Rightarrow> [s]
      | Some m \<Rightarrow> take m s # SplitN (drop (m + length sep) s) sep 2)"
  by (simp add: numeral_3_eq_3 numeral_2_eq_2 split: option.split)

lemma count_list_0: "count_list s c = 0 \<longleftrightarrow> c \<notin> set s"
  by (induction s) auto

lemma length_SplitN_bar:
  "length (SplitN s ''|'' 3) = 3 \<longleftrightarrow> 2 \<le> count_list s (CHR ''|'')"
proof (cases "Index s ''|''")
  case None
  then have "count_list s (CHR ''|'') = 0"
    by (simp add: Index_char_None count_list_0)
  with None show ?thesis by (simp add: SplitN_3)
next
  case (Some m)
  note m = Index_char_Some [OF Some]
  show ?thesis
  proof (cases "Index (drop (Suc m) s) ''|''")
    case None
    then have "count_list (drop (Suc m) s) (CHR ''|'') = 0"
      by (simp add: Index_char_None count_list_0)
    with None Some m show ?thesis
      by (simp add: SplitN_3 SplitN_2)
  next
    case (Some k)
    with \<open>Index s ''|'' = Some m\<close> m Index_char_Some [OF Some] show ?thesis
      by (simp add: SplitN_3 SplitN_2)
  qed
qed

lemma SplitN_bar_3:
  assumes "2 \<le> count_list s (CHR ''|'')"
  shows "\<exists>n1 n2 n3. SplitN s ''|'' 3 = [n1, n2, n3] \<and> s = n1 @ ''|'' @ n2 @ ''|'' @ n3 \<and>
           CHR ''|'' \<notin> set n1 \<and> CHR ''|'' \<notin> set n2"
proof -
  from assms have "CHR ''|'' \<in> set s"
    using count_list_0 [of s "CHR ''|''"] by auto
  then obtain m where m: "Index s ''|'' = Some m"
    using Index_char_None [of s "CHR ''|''"] by auto
  note m1 = Index_char_Some [OF m] and d1 = Index_decomp [OF m]
  let ?r = "drop (Suc m) s"
  from assms m1 have "1 \<le> count_list ?r (CHR ''|'')" by simp
  then have "CHR ''|'' \<in> set ?r"
    using count_list_0 [of ?r "CHR ''|''"] by auto
  then obtain k where k: "Index ?r ''|'' = Some k"
    using Index_char_None [of ?r "CHR ''|''"] by auto
  note k1 = Index_char_Some [OF k] and d2 = Index_decomp [OF k]
  have "SplitN s ''|'' 3 = [take m s, take k ?r, drop (Suc k) ?r]"
    using m k by (simp add: SplitN_3 SplitN_2)
  moreover have "s = take m s @ ''|'' @ take k ?r @ ''|'' @ drop (Suc k) ?r"
    using d1 d2 by simp
  ultimately show ?thesis using m1 k1 by blast
qed

lemma SplitN_delimiter:
  "SplitN s '' -- '' 2 =
     (case Index s '' -- '' of None \<Rightarrow> [s] | Some m \<Rightarrow> [take m s, drop (m + 4) s])"
proof -
  have "m + length '' -- '' = m + 4" for m :: nat by simp
  then show ?thesis unfolding SplitN_2 by presburger
qed

lemma Index_delimiter_decomp:
  assumes "Index s '' -- '' = Some k"
  shows "s = take k s @ '' -- '' @ drop (k + 4) s"
proof -
  have "k + length '' -- '' = k + 4" by simp
  with Index_decomp [OF assms] show ?thesis by metis
qed

lemma first_bar_unique:
  assumes "c \<notin> set a" and "c \<notin> set a'" and "a @ c # r = a' @ c # r'"
  shows "a' = a \<and> r' = r"
  using assms
proof (induction a arbitrary: a')
  case Nil
  show ?case
  proof (cases a')
    case Nil
    with Nil.prems(3) show ?thesis by simp
  next
    case (Cons y ys)
    with Nil.prems(3) have "c = y" by simp
    with Nil.prems(2) Cons show ?thesis by simp
  qed
next
  case (Cons x a)
  note prems = Cons.prems and IH = Cons.IH
  show ?case
  proof (cases a')
    case Nil
    with prems(3) have "x = c" by simp
    with prems(1) show ?thesis by simp
  next
    case (Cons y ys)
    with prems(3) have xy: "x = y" and eq: "a @ c # r = ys @ c # r'" by simp_all
    from prems(1) have a: "c \<notin> set a" by simp
    from prems(2) Cons have ys: "c \<notin> set ys" by simp
    from IH [OF a ys eq] have "ys = a \<and> r' = r" .
    with xy Cons show ?thesis by blast
  qed
qed

subsection \<open>The parser and the log pump\<close>

lemma parse_no_delimiter:
  assumes "Index input '' -- '' = None"
  shows "parseLogMessage input logMsg args =
           ([warn_msgf ''invalid ebpf log message: '' input], args, None)"
  using assms by (simp add: parseLogMessage_def SplitN_delimiter)

lemma parse_too_few_args:
  assumes "Index input '' -- '' = Some k"
    and "count_list (drop (k + 4) input) (CHR ''|'') < 2"
  shows "parseLogMessage input logMsg args =
           ([warn_msgf ''invalid ebpf log message not 3 args: '' input], args, None)"
proof -
  from assms(2) have "length (SplitN (drop (k + 4) input) ''|'' 3) \<noteq> 3"
    by (simp add: length_SplitN_bar)
  with assms(1) show ?thesis
    by (simp add: parseLogMessage_def SplitN_delimiter Let_def)
qed

lemma parse_three_args:
  assumes "Index input '' -- '' = Some k"
    and "2 \<le> count_list (drop (k + 4) input) (CHR ''|'')"
  shows "\<exists>n1 n2 n3.
           input = take k input @ '' -- '' @ n1 @ ''|'' @ n2 @ ''|'' @ n3 \<and>
           CHR ''|'' \<notin> set n1 \<and> CHR ''|'' \<notin> set n2 \<and>
           parseLogMessage input logMsg args =
             ([],
              args[0 := (n1, Arg1 logMsg), 1 := (n2, Arg2 logMsg), 2 := (n3, Arg3 logMsg)],
              Some (take k input))"
proof -
  from SplitN_bar_3 [OF assms(2)] obtain n1 n2 n3
    where split: "SplitN (drop (k + 4) input) ''|'' 3 = [n1, n2, n3]"
      and rest: "drop (k + 4) input = n1 @ ''|'' @ n2 @ ''|'' @ n3"
      and bars: "CHR ''|'' \<notin> set n1" "CHR ''|'' \<notin> set n2"
    by blast
  from Index_delimiter_decomp [OF assms(1)] rest
  have "input = take k input @ '' -- '' @ n1 @ ''|'' @ n2 @ ''|'' @ n3"
    by metis
  moreover from assms(1) split
  have "parseLogMessage input logMsg args =
          ([],
           args[0 := (n1, Arg1 logMsg), 1 := (n2, Arg2 logMsg), 2 := (n3, Arg3 logMsg)],
           Some (take k input))"
    by (simp add: parseLogMessage_def SplitN_delimiter Let_def)
  ultimately show ?thesis using bars by blast
qed

lemma initial_args_update:
  "[([], 0), ([], 0), ([], 0)][0 := a, 1 := b, 2 := c] = [a, b, c :: arg]"
  by (simp add: numeral_2_eq_2)

lemma accepted_iff:
  "accepted s \<longleftrightarrow> (\<exists>k. Index s '' -- '' = Some k \<and> 2 \<le> count_list (drop (k + 4) s) (CHR ''|''))"
  by (simp add: accepted_def split: option.split)

lemma spec_grammar_accepted: "spec_grammar s \<Longrightarrow> accepted s"
  by (simp add: accepted_def spec_grammar_def split: option.splits)

lemma parse_result_iff:
  "snd (snd (parseLogMessage input logMsg args)) \<noteq> None \<longleftrightarrow> accepted input"
proof (cases "Index input '' -- ''")
  case None
  then show ?thesis by (simp add: parse_no_delimiter accepted_def)
next
  case (Some k)
  show ?thesis
  proof (cases "2 \<le> count_list (drop (k + 4) input) (CHR ''|'')")
    case True
    from parse_three_args [OF Some True, of logMsg args] True Some show ?thesis
      by (auto simp add: accepted_def)
  next
    case False
    then have "count_list (drop (k + 4) input) (CHR ''|'') < 2" by simp
    from parse_too_few_args [OF Some this, of logMsg args] False Some show ?thesis
      by (simp add: accepted_def)
  qed
qed

lemma logs_read_rejected:
  assumes "\<not> accepted (log_input logMsg)"
  shows "\<exists>format \<in> {''invalid ebpf log message: '', ''invalid ebpf log message not 3 args: ''}.
           logs_read logMsg =
             [warn_msgf format (log_input logMsg),
              warn_msgf ''invalid ebpf log message: '' (LogMsg logMsg)]"
proof (cases "Index (log_input logMsg) '' -- ''")
  case None
  from parse_no_delimiter [OF None] show ?thesis
    by (simp add: logs_read_def log_input_def [symmetric] Let_def)
next
  case (Some k)
  with assms have "count_list (drop (k + 4) (log_input logMsg)) (CHR ''|'') < 2"
    by (simp add: accepted_def)
  from parse_too_few_args [OF Some this] show ?thesis
    by (simp add: logs_read_def log_input_def [symmetric] Let_def)
qed

lemma logs_read_accepted:
  assumes "accepted (log_input logMsg)"
  shows "\<exists>body n1 n2 n3.
           log_input logMsg = body @ '' -- '' @ n1 @ ''|'' @ n2 @ ''|'' @ n3 \<and>
           Index (log_input logMsg) '' -- '' = Some (length body) \<and>
           CHR ''|'' \<notin> set n1 \<and> CHR ''|'' \<notin> set n2 \<and>
           logs_read logMsg =
             (case spec_level (Level logMsg) of
                None \<Rightarrow> []
              | Some lvl \<Rightarrow>
                  [ebpf_log lvl (take (findEndIndex (FuncName logMsg)) (FuncName logMsg))
                     (bpfLogMessage.Pid logMsg)
                     [(n1, Arg1 logMsg), (n2, Arg2 logMsg), (n3, Arg3 logMsg)] body])"
proof -
  from assms obtain k where k: "Index (log_input logMsg) '' -- '' = Some k"
    and c: "2 \<le> count_list (drop (k + 4) (log_input logMsg)) (CHR ''|'')"
    by (auto simp add: accepted_iff)
  from parse_three_args [OF k c, of logMsg "[([], 0), ([], 0), ([], 0)]"]
  obtain n1 n2 n3
    where d: "log_input logMsg = take k (log_input logMsg) @ '' -- '' @ n1 @ ''|'' @ n2 @ ''|'' @ n3"
      and b: "CHR ''|'' \<notin> set n1" "CHR ''|'' \<notin> set n2"
      and p: "parseLogMessage (log_input logMsg) logMsg [([], 0), ([], 0), ([], 0)] =
                ([], [(n1, Arg1 logMsg), (n2, Arg2 logMsg), (n3, Arg3 logMsg)],
                 Some (take k (log_input logMsg)))"
    unfolding initial_args_update by blast
  from Index_le [OF k] have l: "length (take k (log_input logMsg)) = k" by simp
  have "logs_read logMsg =
          (case spec_level (Level logMsg) of
             None \<Rightarrow> []
           | Some lvl \<Rightarrow>
               [ebpf_log lvl (take (findEndIndex (FuncName logMsg)) (FuncName logMsg))
                  (bpfLogMessage.Pid logMsg)
                  [(n1, Arg1 logMsg), (n2, Arg2 logMsg), (n3, Arg3 logMsg)]
                  (take k (log_input logMsg))])"
    using p by (simp add: logs_read_def log_input_def [symmetric] Let_def spec_level_def)
  with d b k l show ?thesis by metis
qed

lemma spec_grammar_iff:
  "spec_grammar s \<longleftrightarrow>
     (\<exists>body n1 n2 n3.
         s = body @ '' -- '' @ n1 @ ''|'' @ n2 @ ''|'' @ n3 \<and>
         Index s '' -- '' = Some (length body) \<and>
         CHR ''|'' \<notin> set n1 \<and> CHR ''|'' \<notin> set n2 \<and> CHR ''|'' \<notin> set n3)"
proof
  assume "spec_grammar s"
  then obtain k where k: "Index s '' -- '' = Some k"
    and c: "count_list (drop (k + 4) s) (CHR ''|'') = 2"
    by (auto simp add: spec_grammar_def split: option.splits)
  from c have "2 \<le> count_list (drop (k + 4) s) (CHR ''|'')" by simp
  from SplitN_bar_3 [OF this] obtain n1 n2 n3
    where rest: "drop (k + 4) s = n1 @ ''|'' @ n2 @ ''|'' @ n3"
      and bars: "CHR ''|'' \<notin> set n1" "CHR ''|'' \<notin> set n2"
    by blast
  from c bars have "count_list n3 (CHR ''|'') = 0"
    unfolding rest by (simp add: count_list_0)
  then have n3: "CHR ''|'' \<notin> set n3" by (simp add: count_list_0)
  from Index_delimiter_decomp [OF k] rest
  have "s = take k s @ '' -- '' @ n1 @ ''|'' @ n2 @ ''|'' @ n3" by metis
  moreover from Index_le [OF k] have "length (take k s) = k" by simp
  ultimately show "\<exists>body n1 n2 n3.
         s = body @ '' -- '' @ n1 @ ''|'' @ n2 @ ''|'' @ n3 \<and>
         Index s '' -- '' = Some (length body) \<and>
         CHR ''|'' \<notin> set n1 \<and> CHR ''|'' \<notin> set n2 \<and> CHR ''|'' \<notin> set n3"
    using k bars n3 by metis
next
  assume "\<exists>body n1 n2 n3.
         s = body @ '' -- '' @ n1 @ ''|'' @ n2 @ ''|'' @ n3 \<and>
         Index s '' -- '' = Some (length body) \<and>
         CHR ''|'' \<notin> set n1 \<and> CHR ''|'' \<notin> set n2 \<and> CHR ''|'' \<notin> set n3"
  then obtain body n1 n2 n3
    where s: "s = body @ '' -- '' @ n1 @ ''|'' @ n2 @ ''|'' @ n3"
      and k: "Index s '' -- '' = Some (length body)"
      and bars: "count_list n1 (CHR ''|'') = 0" "count_list n2 (CHR ''|'') = 0"
        "count_list n3 (CHR ''|'') = 0"
    by (auto simp add: count_list_0)
  have "drop (length body + 4) s = n1 @ ''|'' @ n2 @ ''|'' @ n3"
    by (subst s) simp
  with bars have "count_list (drop (length body + 4) s) (CHR ''|'') = 2"
    by simp
  with k show "spec_grammar s" by (simp add: spec_grammar_def)
qed

lemma logs_read_no_delimiter:
  assumes "Index (log_input logMsg) '' -- '' = None"
  shows "logs_read logMsg =
           [warn_msgf ''invalid ebpf log message: '' (log_input logMsg),
            warn_msgf ''invalid ebpf log message: '' (LogMsg logMsg)]"
  using parse_no_delimiter [OF assms]
  by (simp add: logs_read_def log_input_def [symmetric] Let_def)

lemma logs_read_too_few_args:
  assumes "Index (log_input logMsg) '' -- '' = Some k"
    and "count_list (drop (k + 4) (log_input logMsg)) (CHR ''|'') < 2"
  shows "logs_read logMsg =
           [warn_msgf ''invalid ebpf log message not 3 args: '' (log_input logMsg),
            warn_msgf ''invalid ebpf log message: '' (LogMsg logMsg)]"
  using parse_too_few_args [OF assms]
  by (simp add: logs_read_def log_input_def [symmetric] Let_def)

lemma logs_read_rejected_shape:
  assumes "\<not> accepted (log_input logMsg)"
  shows "length (filter is_warn (logs_read logMsg)) = 2 \<and>
         filter is_ebpf_log (logs_read logMsg) = []"
  using logs_read_rejected [OF assms]
  by (auto simp add: is_warn_def is_ebpf_log_def warn_msgf_def)

subsection \<open>The literal log records\<close>

lemma accepted_valid: "accepted ''read done -- fd|len|cpu''"
  by (simp add: accepted_def)

lemma not_grammar_four: "\<not> spec_grammar ''x -- a|b|c|d''"
  by (simp add: spec_grammar_def)

lemma not_accepted_two: "\<not> accepted ''x -- a|b''"
  by (simp add: accepted_def)

lemma parse_four:
  "parseLogMessage ''x -- a|b|c|d'' logMsg [([], 0), ([], 0), ([], 0)] =
     ([], [(''a'', Arg1 logMsg), (''b'', Arg2 logMsg), (''c|d'', Arg3 logMsg)], Some ''x'')"
  by (simp add: parseLogMessage_def SplitN_delimiter SplitN_3 SplitN_2 initial_args_update Let_def)

lemma logs_read_four:
  "logs_read (scenario_log 1 ''x -- a|b|c|d'') =
     [ebpf_log InfoLevel ''handle_read'' 42 [(''a'', 7), (''b'', 128), (''c|d'', 3)] ''x'']"
proof -
  have i: "log_input (scenario_log 1 ''x -- a|b|c|d'') = ''x -- a|b|c|d''"
    by (rule log_input_scenario) simp_all
  show ?thesis
    unfolding logs_read_def Let_def log_input_def [symmetric] i funcName_scenario parse_four
    by (simp add: scenario_log_def)
qed

lemma input_no_delimiter:
  "log_input (scenario_log l ''no delimiter here'') = ''no delimiter here''"
  by (rule log_input_scenario) simp_all

lemma input_two_tokens: "log_input (scenario_log l ''x -- a|b'') = ''x -- a|b''"
  by (rule log_input_scenario) simp_all

lemma input_four_tokens: "log_input (scenario_log l ''x -- a|b|c|d'') = ''x -- a|b|c|d''"
  by (rule log_input_scenario) simp_all

lemma input_valid:
  "log_input (scenario_log l ''read done -- fd|len|cpu'') = ''read done -- fd|len|cpu''"
  by (rule log_input_scenario) simp_all

subsection \<open>Startup and teardown\<close>

text \<open>
  A trace that ends the process closes no link; a trace that returns closes all eight,
  the latest first.
\<close>

lemma closed_links_append: "closed_links (es @ es') = closed_links es @ closed_links es'"
  by (induction es rule: closed_links.induct) simp_all

lemma link_failed_effects:
  "closed_links (link_failed verifierLog t err) = [] \<and> OsExit \<in> set (link_failed verifierLog t err)"
  by (simp add: link_failed_def Fatal_Err_Msg_def)

lemma link_programs_effects:
  assumes "link_programs tracepoint verifierLog ts ds = (es, r)"
  shows "closed_links es = [] \<and> (OsExit \<in> set es \<longleftrightarrow> r = None) \<and>
         (\<forall>ds'. r = Some ds' \<longrightarrow> ds' = map CloseLink (rev ts) @ ds)"
  using assms
proof (induction ts arbitrary: ds es r)
  case Nil
  then show ?case by auto
next
  case (Cons t ts)
  show ?case
  proof (cases "tracepoint t")
    case (Some err)
    with Cons.prems link_failed_effects [of verifierLog t err] show ?thesis by auto
  next
    case None
    obtain es' r' where rec: "link_programs tracepoint verifierLog ts (CloseLink t # ds) = (es', r')"
      by (cases "link_programs tracepoint verifierLog ts (CloseLink t # ds)")
    with Cons.prems None have "es = Linked t # info_msg (tracepoint_name t @ '' linked'') # es'" "r = r'"
      by simp_all
    with Cons.IH [OF rec] show ?thesis by (simp add: info_msg_def)
  qed
qed

lemma open_readers_effects:
  assumes "open_readers newReader rs ds = (es, r)"
  shows "closed_links es = [] \<and> (OsExit \<in> set es \<longleftrightarrow> r = None) \<and>
         (\<forall>ds'. r = Some ds' \<longrightarrow> ds' = map CloseReader (rev rs) @ ds)"
  using assms
proof (induction rs arbitrary: ds es r)
  case Nil
  then show ?case by auto
next
  case (Cons x rs)
  show ?case
  proof (cases "newReader x")
    case (Some err)
    with Cons.prems show ?thesis by (auto simp add: Fatal_Err_Msg_def)
  next
    case None
    obtain es' r' where rec: "open_readers newReader rs (CloseReader x # ds) = (es', r')"
      by (cases "open_readers newReader rs (CloseReader x # ds)")
    with Cons.prems None have "es = ReaderOpened x # es'" "r = r'"
      by simp_all
    with Cons.IH [OF rec] show ?thesis by simp
  qed
qed

lemma run_deferred_no_exit: "OsExit \<notin> set (concat (map run_deferred ds))"
proof (induction ds)
  case Nil
  then show ?case by simp
next
  case (Cons d ds)
  then show ?case by (cases d) (simp_all add: info_msg_def)
qed

lemma closed_links_run_deferred:
  "closed_links (concat (map run_deferred (map CloseReader rs @ map CloseLink ts @ [CloseObjects]))) = ts"
proof -
  have r: "closed_links (concat (map (run_deferred \<circ> CloseReader) rs)) = []"
    by (induction rs) (simp_all add: info_msg_def)
  have l: "closed_links (concat (map (run_deferred \<circ> CloseLink) ts)) = ts"
    by (induction ts) (simp_all add: info_msg_def)
  show ?thesis by (simp add: closed_links_append r l)
qed

lemma DeployAndWait_exit_closes_nothing:
  assumes "OsExit \<in> set (DeployAndWait tracepoint verifierLog newReader)"
  shows "closed_links (DeployAndWait tracepoint verifierLog newReader) = []"
proof -
  obtain es r where l: "link_programs tracepoint verifierLog link_order [CloseObjects] = (es, r)"
    by (cases "link_programs tracepoint verifierLog link_order [CloseObjects]")
  note le = link_programs_effects [OF l]
  show ?thesis
  proof (cases r)
    case None
    with l le show ?thesis by (simp add: DeployAndWait_def)
  next
    case (Some ds)
    obtain es' r' where o: "open_readers newReader [l7Events, logs] ds = (es', r')"
      by (cases "open_readers newReader [l7Events, logs] ds")
    note oe = open_readers_effects [OF o]
    show ?thesis
    proof (cases r')
      case None
      with l le Some o oe show ?thesis
        by (simp add: DeployAndWait_def closed_links_append)
    next
      case (Some ds')
      with l le \<open>r = Some ds\<close> o oe assms run_deferred_no_exit [of ds'] show ?thesis
        by (simp add: DeployAndWait_def)
    qed
  qed
qed

lemma DeployAndWait_return_closes_all:
  assumes "OsExit \<notin> set (DeployAndWait tracepoint verifierLog newReader)"
  shows "closed_links (DeployAndWait tracepoint verifierLog newReader) = rev link_order"
proof -
  obtain es r where l: "link_programs tracepoint verifierLog link_order [CloseObjects] = (es, r)"
    by (cases "link_programs tracepoint verifierLog link_order [CloseObjects]")
  note le = link_programs_effects [OF l]
  show ?thesis
  proof (cases r)
    case None
    with l le assms show ?thesis by (simp add: DeployAndWait_def)
  next
    case (Some ds)
    obtain es' r' where o: "open_readers newReader [l7Events, logs] ds = (es', r')"
      by (cases "open_readers newReader [l7Events, logs] ds")
    note oe = open_readers_effects [OF o]
    show ?thesis
    proof (cases r')
      case None
      with l le Some o oe assms show ?thesis
        by (simp add: DeployAndWait_def)
    next
      case (Some ds')
      with le oe \<open>r = Some ds\<close>
      have ds': "ds' = map CloseReader (rev [l7Events, logs]) @ map CloseLink (rev link_order) @ [CloseObjects]"
        by simp
      from l le \<open>r = Some ds\<close> o oe Some show ?thesis
        unfolding ds' DeployAndWait_def
        by (simp add: closed_links_append closed_links_run_deferred del: map_append rev.simps)
    qed
  qed
qed

section \<open>The claims\<close>

subsection \<open>C1: protocol discriminants outside the table\<close>

text \<open>
  C1 as stated fails: the record of scenario 3 (\<open>protocol = 9\<close>, \<open>method = 3\<close>) has a
  discriminant outside \<open>{0, 1, 2, 3}\<close>, and the event sent for it does not carry the
  protocol string \<open>"UNKNOWN"\<close>.
\<close>

theorem unknown_discriminant_counterexample:
  "bpfL7Event.Protocol scenario_unknown_protocol \<notin> {0, 1, 2, 3} \<and>
   L7Event.Protocol (l7_event_sent scenario_unknown_protocol) \<noteq> ''UNKNOWN''"
  by (simp add: scenario_unknown_protocol_def l7_defs)

text \<open>
  C1, amended: for every raw L7 record whose protocol discriminant is outside
  \<open>{0, 1, 2, 3}\<close>, the default case of \<open>L7ProtocolConversion.String\<close> makes the
  protocol string of the event \<open>"Unknown"\<close>, and its method string is \<open>"Unknown"\<close>;
  consequently the protocol string of every event is one of \<open>"HTTP"\<close>, \<open>"AMQP"\<close>,
  \<open>"POSTGRES"\<close>, \<open>"UNKNOWN"\<close>, \<open>"Unknown"\<close>.
\<close>

theorem unknown_discriminant_decodes_to_Unknown:
  "(bpfL7Event.Protocol r \<notin> {0, 1, 2, 3} \<longrightarrow>
      L7Event.Protocol (l7_event_sent r) = ''Unknown'' \<and>
      L7Event.Method (l7_event_sent r) = ''Unknown'') \<and>
   L7Event.Protocol (l7_event_sent r) \<in> {''HTTP'', ''AMQP'', ''POSTGRES'', ''UNKNOWN'', ''Unknown''}"
  by (simp add: l7_defs)

theorem unknown_discriminant_decodes_to_Unknown_witness:
  "bpfL7Event.Protocol scenario_unknown_protocol \<notin> {0, 1, 2, 3} \<and>
   L7Event.Protocol (l7_event_sent scenario_unknown_protocol) = ''Unknown'' \<and>
   L7Event.Method (l7_event_sent scenario_unknown_protocol) = ''Unknown''"
proof -
  have h: "bpfL7Event.Protocol scenario_unknown_protocol \<notin> {0, 1, 2, 3}"
    by (simp add: scenario_unknown_protocol_def)
  from unknown_discriminant_decodes_to_Unknown [of scenario_unknown_protocol] h
  show ?thesis by blast
qed

subsection \<open>C2: a failed attachment\<close>

text \<open>
  C2 asks that a failure of attachment N releases attachments 1 to N-1 before the process
  ends. When \<open>link.Tracepoint\<close> fails for \<open>sys_enter_write\<close>, the second attachment,
  the trace of \<open>DeployAndWait\<close> ends with the fatal entry and the exit of the process; the
  deferred close of the \<open>sys_enter_read\<close> link, registered just before, never runs.
\<close>

theorem failed_link_leaves_earlier_link_open:
  "DeployAndWait (tracepoint_fails_at sys_enter_write) verifierLog newReader =
     [Linked sys_enter_read,
      info_msg ''sys_enter_read linked'',
      Logged (HostLog WarnLevel [Str ''verifier log'' verifierLog] ''verifier log''),
      Logged (HostLog FatalLevel [Str ''error'' ''permission denied'']
                ''link sys_enter_write tracepoint''),
      OsExit] \<and>
   closed_links (DeployAndWait (tracepoint_fails_at sys_enter_write) verifierLog newReader) = []"
  by (simp add: DeployAndWait_def link_order_def tracepoint_fails_at_def link_failed_def
      Fatal_Err_Msg_def info_msg_def)

subsection \<open>C3: the grammar of the log message\<close>

text \<open>
  C3 as stated fails: \<open>"x -- a|b|c|d"\<close> has four bar-free tokens after the delimiter and
  is outside the grammar, yet the pump emits a structured entry for it, with the third
  argument named \<open>"c|d"\<close>.
\<close>

theorem log_grammar_counterexample:
  "\<not> spec_grammar (log_input (scenario_log 1 ''x -- a|b|c|d'')) \<and>
   filter is_ebpf_log (logs_read (scenario_log 1 ''x -- a|b|c|d'')) =
     [HostLog InfoLevel
        [Str ''func'' ''handle_read'', Uint32 ''pid'' 42,
         Uint64 ''a'' 7, Uint64 ''b'' 128, Uint64 ''c|d'' 3,
         Str ''log-msg'' ''x'']
        ''ebpf-log'']"
  by (simp add: input_four_tokens not_grammar_four logs_read_four is_ebpf_log_def ebpf_log_def)

text \<open>
  C3, amended: the parser accepts exactly the messages that hold the delimiter \<open>" -- "\<close>
  and at least two bars after its first occurrence; every message of the grammar
  \<open>BODY " -- " NAME "|" NAME "|" NAME\<close> is among them. For a message that is not
  accepted no structured entry is emitted. For an accepted message and a level in
  \<open>{0, 1, 2, 3}\<close> exactly one entry is emitted, the structured one, at the level that
  corresponds to the level byte. Its fields are, in order: \<open>func\<close>, the function name up
  to its first zero byte; \<open>pid\<close>; three 64-bit fields holding \<open>arg1\<close>, \<open>arg2\<close>,
  \<open>arg3\<close> and named by the text up to the first bar, the text up to the second bar, and
  all the rest, bars included; and \<open>log-msg\<close>, the text before the first delimiter.
\<close>

theorem parser_accepts_delimiter_and_two_bars:
  "(snd (snd (parseLogMessage input logMsg' args)) \<noteq> None \<longleftrightarrow> accepted input) \<and>
   (spec_grammar input \<longrightarrow> accepted input) \<and>
   (\<not> accepted (log_input logMsg) \<longrightarrow> filter is_ebpf_log (logs_read logMsg) = []) \<and>
   (accepted (log_input logMsg) \<and> Level logMsg \<in> {0, 1, 2, 3} \<longrightarrow>
      (\<exists>lvl body n1 n2 n3.
          spec_level (Level logMsg) = Some lvl \<and>
          log_input logMsg = body @ '' -- '' @ n1 @ ''|'' @ n2 @ ''|'' @ n3 \<and>
          Index (log_input logMsg) '' -- '' = Some (length body) \<and>
          CHR ''|'' \<notin> set n1 \<and> CHR ''|'' \<notin> set n2 \<and>
          logs_read logMsg =
            [HostLog lvl
               [Str ''func'' (take (findEndIndex (FuncName logMsg)) (FuncName logMsg)),
                Uint32 ''pid'' (bpfLogMessage.Pid logMsg),
                Uint64 n1 (Arg1 logMsg),
                Uint64 n2 (Arg2 logMsg),
                Uint64 n3 (Arg3 logMsg),
                Str ''log-msg'' body]
               ''ebpf-log'']))"
proof (intro conjI impI)
  show "snd (snd (parseLogMessage input logMsg' args)) \<noteq> None \<longleftrightarrow> accepted input"
    by (rule parse_result_iff)
next
  assume "spec_grammar input"
  then show "accepted input" by (rule spec_grammar_accepted)
next
  assume "\<not> accepted (log_input logMsg)"
  then show "filter is_ebpf_log (logs_read logMsg) = []"
    by (simp add: logs_read_rejected_shape)
next
  assume a: "accepted (log_input logMsg) \<and> Level logMsg \<in> {0, 1, 2, 3}"
  then obtain lvl where lvl: "spec_level (Level logMsg) = Some lvl"
    by (auto simp add: spec_level_def)
  from a logs_read_accepted [of logMsg] obtain body n1 n2 n3
    where d: "log_input logMsg = body @ '' -- '' @ n1 @ ''|'' @ n2 @ ''|'' @ n3"
      and k: "Index (log_input logMsg) '' -- '' = Some (length body)"
      and b: "CHR ''|'' \<notin> set n1" "CHR ''|'' \<notin> set n2"
      and l: "logs_read logMsg =
          [ebpf_log lvl (take (findEndIndex (FuncName logMsg)) (FuncName logMsg))
             (bpfLogMessage.Pid logMsg)
             [(n1, Arg1 logMsg), (n2, Arg2 logMsg), (n3, Arg3 logMsg)] body]"
    unfolding lvl option.case by blast
  from l have "logs_read logMsg =
      [HostLog lvl
         [Str ''func'' (take (findEndIndex (FuncName logMsg)) (FuncName logMsg)),
          Uint32 ''pid'' (bpfLogMessage.Pid logMsg),
          Uint64 n1 (Arg1 logMsg),
          Uint64 n2 (Arg2 logMsg),
          Uint64 n3 (Arg3 logMsg),
          Str ''log-msg'' body]
         ''ebpf-log'']"
    by (simp add: ebpf_log_def)
  with lvl d k b show
    "\<exists>lvl body n1 n2 n3.
        spec_level (Level logMsg) = Some lvl \<and>
        log_input logMsg = body @ '' -- '' @ n1 @ ''|'' @ n2 @ ''|'' @ n3 \<and>
        Index (log_input logMsg) '' -- '' = Some (length body) \<and>
        CHR ''|'' \<notin> set n1 \<and> CHR ''|'' \<notin> set n2 \<and>
        logs_read logMsg =
          [HostLog lvl
             [Str ''func'' (take (findEndIndex (FuncName logMsg)) (FuncName logMsg)),
              Uint32 ''pid'' (bpfLogMessage.Pid logMsg),
              Uint64 n1 (Arg1 logMsg),
              Uint64 n2 (Arg2 logMsg),
              Uint64 n3 (Arg3 logMsg),
              Str ''log-msg'' body]
             ''ebpf-log'']"
    by blast
qed

theorem parser_accepts_delimiter_and_two_bars_witness:
  "spec_grammar ''read done -- fd|len|cpu'' \<and> accepted ''read done -- fd|len|cpu'' \<and>
   \<not> accepted (log_input (scenario_log 1 ''x -- a|b'')) \<and>
   filter is_ebpf_log (logs_read (scenario_log 1 ''x -- a|b'')) = [] \<and>
   accepted (log_input (scenario_log 1 ''read done -- fd|len|cpu'')) \<and>
   Level (scenario_log 1 ''read done -- fd|len|cpu'') \<in> {0, 1, 2, 3} \<and>
   logs_read (scenario_log 1 ''read done -- fd|len|cpu'') =
     [HostLog InfoLevel
        [Str ''func'' ''handle_read'', Uint32 ''pid'' 42,
         Uint64 ''fd'' 7, Uint64 ''len'' 128, Uint64 ''cpu'' 3,
         Str ''log-msg'' ''read done'']
        ''ebpf-log'']"
proof -
  let ?valid = "scenario_log 1 ''read done -- fd|len|cpu''"
  let ?short = "scenario_log 1 ''x -- a|b''"
  have g: "spec_grammar ''read done -- fd|len|cpu''"
    by (simp add: spec_grammar_def)
  have r: "\<not> accepted (log_input ?short)"
    by (simp add: input_two_tokens not_accepted_two)
  have "Level ?valid \<in> {0, 1, 2, 3}"
    by (simp add: scenario_log_def)
  then have a: "accepted (log_input ?valid) \<and> Level ?valid \<in> {0, 1, 2, 3}"
    by (simp add: input_valid accepted_valid)
  have f: "take (findEndIndex (FuncName ?valid)) (FuncName ?valid) = ''handle_read''"
    "bpfLogMessage.Pid ?valid = 42" "Arg1 ?valid = 7" "Arg2 ?valid = 128" "Arg3 ?valid = 3"
    by (simp_all add: funcName_scenario) (simp_all add: scenario_log_def)
  have v: "spec_level (Level ?valid) = Some InfoLevel"
    by (simp add: scenario_log_def spec_level_def)
  from parser_accepts_delimiter_and_two_bars [of "''read done -- fd|len|cpu''" _ _ ?short] g r
  have 1: "accepted ''read done -- fd|len|cpu'' \<and> filter is_ebpf_log (logs_read ?short) = []"
    by blast
  from parser_accepts_delimiter_and_two_bars [of _ _ _ ?valid] a
  obtain lvl body n1 n2 n3
    where lvl: "spec_level (Level ?valid) = Some lvl"
      and d: "''read done -- fd|len|cpu'' = body @ '' -- '' @ n1 @ ''|'' @ n2 @ ''|'' @ n3"
      and k: "Index ''read done -- fd|len|cpu'' '' -- '' = Some (length body)"
      and b: "CHR ''|'' \<notin> set n1" "CHR ''|'' \<notin> set n2"
      and l: "logs_read ?valid =
          [HostLog lvl
             [Str ''func'' ''handle_read'', Uint32 ''pid'' 42,
              Uint64 n1 7, Uint64 n2 128, Uint64 n3 3, Str ''log-msg'' body]
             ''ebpf-log'']"
    unfolding f input_valid by blast
  from lvl v have lvl': "lvl = InfoLevel" by simp
  from k have n: "length body = 9" by simp
  have "take (length body) (body @ '' -- '' @ n1 @ ''|'' @ n2 @ ''|'' @ n3) = body"
    by simp
  then have "take (length body) ''read done -- fd|len|cpu'' = body"
    unfolding d [symmetric] .
  then have body: "body = ''read done''"
    unfolding n by simp
  have "drop (length body + 4) (body @ '' -- '' @ n1 @ ''|'' @ n2 @ ''|'' @ n3) =
          n1 @ CHR ''|'' # (n2 @ ''|'' @ n3)"
    by simp
  then have "drop (length body + 4) ''read done -- fd|len|cpu'' =
          n1 @ CHR ''|'' # (n2 @ ''|'' @ n3)"
    unfolding d [symmetric] .
  then have e1: "''fd'' @ CHR ''|'' # ''len|cpu'' = n1 @ CHR ''|'' # (n2 @ ''|'' @ n3)"
    unfolding n by simp
  have "CHR ''|'' \<notin> set ''fd''" by simp
  from first_bar_unique [OF this b(1) e1]
  have n1: "n1 = ''fd''" and "n2 @ ''|'' @ n3 = ''len|cpu''" by simp_all
  then have e2: "''len'' @ CHR ''|'' # ''cpu'' = n2 @ CHR ''|'' # n3" by simp
  have "CHR ''|'' \<notin> set ''len''" by simp
  from first_bar_unique [OF this b(2) e2]
  have n2: "n2 = ''len''" and n3: "n3 = ''cpu''" by simp_all
  from l have 2: "logs_read ?valid =
     [HostLog InfoLevel
        [Str ''func'' ''handle_read'', Uint32 ''pid'' 42,
         Uint64 ''fd'' 7, Uint64 ''len'' 128, Uint64 ''cpu'' 3,
         Str ''log-msg'' ''read done'']
        ''ebpf-log'']"
    unfolding lvl' body n1 n2 n3 .
  from g r a 1 2 show ?thesis by blast
qed

subsection \<open>C4: malformed log records\<close>

text \<open>
  C4 as stated fails: for \<open>log_msg = "no delimiter here"\<close>, which has no delimiter, the
  pump emits two entries at warn level, not one.
\<close>

theorem single_warn_counterexample:
  "Index (log_input (scenario_log 1 ''no delimiter here'')) '' -- '' = None \<and>
   length (filter is_warn (logs_read (scenario_log 1 ''no delimiter here''))) = 2"
proof -
  have n: "Index (log_input (scenario_log 1 ''no delimiter here'')) '' -- '' = None"
    by (simp add: input_no_delimiter)
  then have "\<not> accepted (log_input (scenario_log 1 ''no delimiter here''))"
    by (simp add: accepted_def)
  with n show ?thesis by (simp add: logs_read_rejected_shape)
qed

text \<open>
  C4, amended: for every log record whose message lacks the delimiter \<open>" -- "\<close>, or has
  fewer than two bars (fewer than three tokens) after the first delimiter, the pump emits
  exactly two entries at warn level and no structured entry. The first entry is written by
  the parser and quotes the message up to its first zero byte; the second is written by
  the caller and quotes the whole 100-byte buffer.
\<close>

theorem malformed_log_record_warns_twice:
  "(Index (log_input logMsg) '' -- '' = None \<longrightarrow>
      logs_read logMsg =
        [warn_msgf ''invalid ebpf log message: '' (log_input logMsg),
         warn_msgf ''invalid ebpf log message: '' (LogMsg logMsg)]) \<and>
   (\<forall>k. Index (log_input logMsg) '' -- '' = Some k \<and>
        count_list (drop (k + 4) (log_input logMsg)) (CHR ''|'') < 2 \<longrightarrow>
      logs_read logMsg =
        [warn_msgf ''invalid ebpf log message not 3 args: '' (log_input logMsg),
         warn_msgf ''invalid ebpf log message: '' (LogMsg logMsg)]) \<and>
   (\<not> accepted (log_input logMsg) \<longrightarrow>
      length (filter is_warn (logs_read logMsg)) = 2 \<and>
      filter is_ebpf_log (logs_read logMsg) = [])"
  using logs_read_no_delimiter [of logMsg] logs_read_too_few_args [of logMsg]
    logs_read_rejected_shape [of logMsg]
  by blast

theorem malformed_log_record_warns_twice_witness:
  "Index (log_input (scenario_log 1 ''no delimiter here'')) '' -- '' = None \<and>
   map entry_msg (logs_read (scenario_log 1 ''no delimiter here'')) =
     [''invalid ebpf log message: no delimiter here'',
      ''invalid ebpf log message: '' @ c_string 100 ''no delimiter here''] \<and>
   Index (log_input (scenario_log 1 ''x -- a|b'')) '' -- '' = Some 1 \<and>
   count_list (drop (1 + 4) (log_input (scenario_log 1 ''x -- a|b''))) (CHR ''|'') < 2 \<and>
   map entry_msg (logs_read (scenario_log 1 ''x -- a|b'')) =
     [''invalid ebpf log message not 3 args: x -- a|b'',
      ''invalid ebpf log message: '' @ c_string 100 ''x -- a|b''] \<and>
   \<not> accepted (log_input (scenario_log 1 ''x -- a|b'')) \<and>
   length (filter is_warn (logs_read (scenario_log 1 ''x -- a|b''))) = 2 \<and>
   filter is_ebpf_log (logs_read (scenario_log 1 ''x -- a|b'')) = []"
proof -
  let ?none = "scenario_log 1 ''no delimiter here''"
  let ?short = "scenario_log 1 ''x -- a|b''"
  have n: "Index (log_input ?none) '' -- '' = None"
    by (simp add: input_no_delimiter)
  have s: "Index (log_input ?short) '' -- '' = Some 1 \<and>
           count_list (drop (1 + 4) (log_input ?short)) (CHR ''|'') < 2"
    by (simp add: input_two_tokens)
  have r: "\<not> accepted (log_input ?short)"
    by (simp add: input_two_tokens not_accepted_two)
  from malformed_log_record_warns_twice [of ?none] n
  have 1: "logs_read ?none =
        [warn_msgf ''invalid ebpf log message: '' (log_input ?none),
         warn_msgf ''invalid ebpf log message: '' (LogMsg ?none)]"
    by blast
  from malformed_log_record_warns_twice [of ?short] s r
  have 2: "logs_read ?short =
        [warn_msgf ''invalid ebpf log message not 3 args: '' (log_input ?short),
         warn_msgf ''invalid ebpf log message: '' (LogMsg ?short)] \<and>
      length (filter is_warn (logs_read ?short)) = 2 \<and>
      filter is_ebpf_log (logs_read ?short) = []"
    by blast
  have m: "LogMsg ?none = c_string 100 ''no delimiter here''"
    "LogMsg ?short = c_string 100 ''x -- a|b''"
    by (simp_all add: scenario_log_def)
  from 1 have 3: "map entry_msg (logs_read ?none) =
      [''invalid ebpf log message: no delimiter here'',
       ''invalid ebpf log message: '' @ c_string 100 ''no delimiter here'']"
    by (simp add: warn_msgf_def input_no_delimiter m)
  from 2 have 4: "map entry_msg (logs_read ?short) =
      [''invalid ebpf log message not 3 args: x -- a|b'',
       ''invalid ebpf log message: '' @ c_string 100 ''x -- a|b'']"
    by (simp add: warn_msgf_def input_two_tokens m)
  from n s r 2 3 4 show ?thesis by blast
qed

subsection \<open>C5: HTTP methods and scenario 1\<close>

text \<open>
  C5: for every raw L7 record with protocol discriminant 1 the event carries the protocol
  \<open>"HTTP"\<close> and the method of the table 1 GET, 2 POST, 3 PUT, 4 PATCH, 5 DELETE, 6 HEAD,
  7 CONNECT, 8 OPTIONS, 9 TRACE, with \<open>"Unknown"\<close> for 0 and every other value. The
  fields that are not enumerations are carried over unchanged, the three one-byte flags
  as booleans, and the HTTP GET record of scenario 1 gives the event of the scenario.
\<close>

theorem http_method_table:
  "(bpfL7Event.Protocol r = 1 \<longrightarrow>
      L7Event.Protocol (l7_event_sent r) = ''HTTP'' \<and>
      L7Event.Method (l7_event_sent r) = table_decode spec_http_methods (bpfL7Event.Method r)) \<and>
   L7Event.Fd (l7_event_sent r) = bpfL7Event.Fd r \<and>
   L7Event.Pid (l7_event_sent r) = bpfL7Event.Pid r \<and>
   L7Event.Status (l7_event_sent r) = bpfL7Event.Status r \<and>
   L7Event.Duration (l7_event_sent r) = bpfL7Event.Duration r \<and>
   L7Event.Payload (l7_event_sent r) = bpfL7Event.Payload r \<and>
   L7Event.PayloadSize (l7_event_sent r) = bpfL7Event.PayloadSize r \<and>
   L7Event.WriteTimeNs (l7_event_sent r) = bpfL7Event.WriteTimeNs r \<and>
   L7Event.Tls (l7_event_sent r) = (IsTls r \<noteq> 0) \<and>
   L7Event.PayloadReadComplete (l7_event_sent r) = (bpfL7Event.PayloadReadComplete r \<noteq> 0) \<and>
   L7Event.Failed (l7_event_sent r) = (bpfL7Event.Failed r \<noteq> 0) \<and>
   l7_event_sent scenario_http_get =
     \<lparr> L7Event.Fd = 12, Pid = 7777, Status = 200, Duration = 125000, Protocol = ''HTTP'',
       Tls = False, Method = ''GET'', Payload = c_string 512 ''GET / HTTP/1.1'',
       PayloadSize = 14, PayloadReadComplete = True, Failed = False,
       WriteTimeNs = 1700000000 \<rparr>"
  by (simp add: l7_defs table_decode_def spec_http_methods_def scenario_http_get_def)

theorem http_method_table_witness:
  "bpfL7Event.Protocol scenario_http_get = 1 \<and>
   L7Event.Protocol (l7_event_sent scenario_http_get) = ''HTTP'' \<and>
   L7Event.Method (l7_event_sent scenario_http_get) = ''GET''"
proof -
  have h: "bpfL7Event.Protocol scenario_http_get = 1"
    by (simp add: scenario_http_get_def)
  have m: "table_decode spec_http_methods (bpfL7Event.Method scenario_http_get) = ''GET''"
    by (simp add: scenario_http_get_def table_decode_def spec_http_methods_def)
  from http_method_table [of scenario_http_get] h m show ?thesis by simp
qed

subsection \<open>C6: the method of an unknown protocol\<close>

text \<open>
  C6: the protocol string of an event is \<open>"UNKNOWN"\<close> exactly when the raw discriminant
  is 0, and then the method string is \<open>"Unknown"\<close>, whatever the raw method is.
\<close>

theorem unknown_protocol_has_unknown_method:
  "(L7Event.Protocol (l7_event_sent r) = ''UNKNOWN'' \<longleftrightarrow> bpfL7Event.Protocol r = 0) \<and>
   (L7Event.Protocol (l7_event_sent r) = ''UNKNOWN'' \<longrightarrow>
      L7Event.Method (l7_event_sent r) = ''Unknown'')"
  by (simp add: l7_defs)

theorem unknown_protocol_has_unknown_method_witness:
  "L7Event.Protocol (l7_event_sent scenario_protocol_zero) = ''UNKNOWN'' \<and>
   bpfL7Event.Method scenario_protocol_zero = 3 \<and>
   L7Event.Method (l7_event_sent scenario_protocol_zero) = ''Unknown''"
proof -
  have p: "bpfL7Event.Protocol scenario_protocol_zero = 0"
    and m: "bpfL7Event.Method scenario_protocol_zero = 3"
    by (simp_all add: scenario_protocol_zero_def scenario_unknown_protocol_def)
  from unknown_protocol_has_unknown_method [of scenario_protocol_zero] p m
  show ?thesis by simp
qed

subsection \<open>C7: round trip through the tables\<close>

text \<open>
  C7: for each of the four enumerations, converting a discriminant to its string and
  looking the string up in the same table gives the discriminant back if and only if the
  discriminant is in the table; each conversion is injective on the discriminants of its
  table, and sends every other discriminant to a string that is in no entry of the table.
\<close>

theorem enum_round_trip:
  "((table_encode spec_protocols (L7ProtocolConversion_String e) = Some e) =
      (e \<in> fst ` set spec_protocols)) \<and>
   ((table_encode spec_http_methods (HTTPMethodConversion_String e) = Some e) =
      (e \<in> fst ` set spec_http_methods)) \<and>
   ((table_encode spec_amqp_methods (RabbitMQMethodConversion_String e) = Some e) =
      (e \<in> fst ` set spec_amqp_methods)) \<and>
   ((table_encode spec_postgres_methods (PostgresMethodConversion_String e) = Some e) =
      (e \<in> fst ` set spec_postgres_methods)) \<and>
   inj_on L7ProtocolConversion_String (fst ` set spec_protocols) \<and>
   inj_on HTTPMethodConversion_String (fst ` set spec_http_methods) \<and>
   inj_on RabbitMQMethodConversion_String (fst ` set spec_amqp_methods) \<and>
   inj_on PostgresMethodConversion_String (fst ` set spec_postgres_methods) \<and>
   (e \<notin> fst ` set spec_protocols \<longrightarrow>
      L7ProtocolConversion_String e \<notin> snd ` set spec_protocols) \<and>
   (e \<notin> fst ` set spec_http_methods \<longrightarrow>
      HTTPMethodConversion_String e \<notin> snd ` set spec_http_methods) \<and>
   (e \<notin> fst ` set spec_amqp_methods \<longrightarrow>
      RabbitMQMethodConversion_String e \<notin> snd ` set spec_amqp_methods) \<and>
   (e \<notin> fst ` set spec_postgres_methods \<longrightarrow>
      PostgresMethodConversion_String e \<notin> snd ` set spec_postgres_methods)"
proof -
  have protocol: "(table_encode spec_protocols (L7ProtocolConversion_String e) = Some e) =
      (e \<in> fst ` set spec_protocols)"
    by (simp add: table_encode_def spec_protocols_def String_defs protocol_consts)
  have http: "(table_encode spec_http_methods (HTTPMethodConversion_String e) = Some e) =
      (e \<in> fst ` set spec_http_methods)"
    by (simp add: table_encode_def spec_http_methods_def String_defs method_consts)
  have amqp: "(table_encode spec_amqp_methods (RabbitMQMethodConversion_String e) = Some e) =
      (e \<in> fst ` set spec_amqp_methods)"
    by (simp add: table_encode_def spec_amqp_methods_def String_defs method_consts)
  have postgres:
    "(table_encode spec_postgres_methods (PostgresMethodConversion_String e) = Some e) =
      (e \<in> fst ` set spec_postgres_methods)"
    by (simp add: table_encode_def spec_postgres_methods_def String_defs method_consts)
  have inj: "inj_on L7ProtocolConversion_String (fst ` set spec_protocols)"
    "inj_on HTTPMethodConversion_String (fst ` set spec_http_methods)"
    "inj_on RabbitMQMethodConversion_String (fst ` set spec_amqp_methods)"
    "inj_on PostgresMethodConversion_String (fst ` set spec_postgres_methods)"
    by (simp_all add: spec_tables String_defs protocol_consts method_consts)
  have out: "e \<notin> fst ` set spec_protocols \<longrightarrow>
      L7ProtocolConversion_String e \<notin> snd ` set spec_protocols"
    "e \<notin> fst ` set spec_http_methods \<longrightarrow>
      HTTPMethodConversion_String e \<notin> snd ` set spec_http_methods"
    "e \<notin> fst ` set spec_amqp_methods \<longrightarrow>
      RabbitMQMethodConversion_String e \<notin> snd ` set spec_amqp_methods"
    "e \<notin> fst ` set spec_postgres_methods \<longrightarrow>
      PostgresMethodConversion_String e \<notin> snd ` set spec_postgres_methods"
    by (simp_all add: spec_tables String_defs protocol_consts method_consts)
  from protocol http amqp postgres inj out show ?thesis by blast
qed

theorem enum_round_trip_witness:
  "table_encode spec_protocols (L7ProtocolConversion_String 0) = Some 0 \<and>
   table_encode spec_http_methods (HTTPMethodConversion_String 9) = Some 9 \<and>
   table_encode spec_amqp_methods (RabbitMQMethodConversion_String 2) = Some 2 \<and>
   table_encode spec_postgres_methods (PostgresMethodConversion_String 1) = Some 1 \<and>
   (10 :: 32 word) \<notin> fst ` set spec_protocols \<and>
   L7ProtocolConversion_String 10 \<notin> snd ` set spec_protocols \<and>
   table_encode spec_protocols (L7ProtocolConversion_String 10) \<noteq> Some 10 \<and>
   (10 :: 32 word) \<notin> fst ` set spec_http_methods \<and>
   HTTPMethodConversion_String 10 \<notin> snd ` set spec_http_methods \<and>
   table_encode spec_http_methods (HTTPMethodConversion_String 10) \<noteq> Some 10 \<and>
   (10 :: 32 word) \<notin> fst ` set spec_amqp_methods \<and>
   RabbitMQMethodConversion_String 10 \<notin> snd ` set spec_amqp_methods \<and>
   table_encode spec_amqp_methods (RabbitMQMethodConversion_String 10) \<noteq> Some 10 \<and>
   (10 :: 32 word) \<notin> fst ` set spec_postgres_methods \<and>
   PostgresMethodConversion_String 10 \<notin> snd ` set spec_postgres_methods \<and>
   table_encode spec_postgres_methods (PostgresMethodConversion_String 10) \<noteq> Some 10"
proof -
  have h: "(10 :: 32 word) \<notin> fst ` set spec_protocols"
    "(10 :: 32 word) \<notin> fst ` set spec_http_methods"
    "(10 :: 32 word) \<notin> fst ` set spec_amqp_methods"
    "(10 :: 32 word) \<notin> fst ` set spec_postgres_methods"
    by (simp_all add: spec_tables)
  have i: "(0 :: 32 word) \<in> fst ` set spec_protocols"
    "(9 :: 32 word) \<in> fst ` set spec_http_methods"
    "(2 :: 32 word) \<in> fst ` set spec_amqp_methods"
    "(1 :: 32 word) \<in> fst ` set spec_postgres_methods"
    by (simp_all add: spec_tables)
  from enum_round_trip [of 10] h
  have out: "L7ProtocolConversion_String 10 \<notin> snd ` set spec_protocols \<and>
      table_encode spec_protocols (L7ProtocolConversion_String 10) \<noteq> Some 10 \<and>
      HTTPMethodConversion_String 10 \<notin> snd ` set spec_http_methods \<and>
      table_encode spec_http_methods (HTTPMethodConversion_String 10) \<noteq> Some 10 \<and>
      RabbitMQMethodConversion_String 10 \<notin> snd ` set spec_amqp_methods \<and>
      table_encode spec_amqp_methods (RabbitMQMethodConversion_String 10) \<noteq> Some 10 \<and>
      PostgresMethodConversion_String 10 \<notin> snd ` set spec_postgres_methods \<and>
      table_encode spec_postgres_methods (PostgresMethodConversion_String 10) \<noteq> Some 10"
    by blast
  from i(1) enum_round_trip [of 0, THEN conjunct1]
  have protocol: "table_encode spec_protocols (L7ProtocolConversion_String 0) = Some 0"
    by (rule iffD2 [rotated])
  from i(2) enum_round_trip [of 9, THEN conjunct2, THEN conjunct1]
  have http: "table_encode spec_http_methods (HTTPMethodConversion_String 9) = Some 9"
    by (rule iffD2 [rotated])
  from i(3) enum_round_trip [of 2, THEN conjunct2, THEN conjunct2, THEN conjunct1]
  have amqp: "table_encode spec_amqp_methods (RabbitMQMethodConversion_String 2) = Some 2"
    by (rule iffD2 [rotated])
  from i(4)
    enum_round_trip [of 1, THEN conjunct2, THEN conjunct2, THEN conjunct2, THEN conjunct1]
  have postgres:
    "table_encode spec_postgres_methods (PostgresMethodConversion_String 1) = Some 1"
    by (rule iffD2 [rotated])
  from protocol http amqp postgres h out show ?thesis by simp
qed

subsection \<open>C8: the level of a log record\<close>

text \<open>
  C8 as stated fails: a record with level 9 whose message has no delimiter is not dropped
  silently; the pump writes warnings for it.
\<close>

theorem silent_drop_counterexample:
  "Level (scenario_log 9 ''no delimiter here'') \<notin> {0, 1, 2, 3} \<and>
   logs_read (scenario_log 9 ''no delimiter here'') \<noteq> []"
proof -
  have "Index (log_input (scenario_log 9 ''no delimiter here'')) '' -- '' = None"
    by (simp add: input_no_delimiter)
  from logs_read_no_delimiter [OF this] show ?thesis
    by (simp add: scenario_log_def)
qed

text \<open>
  C8, amended: for every raw log record whose message the parser accepts, the pump emits
  no entry at all when the level is outside \<open>{0, 1, 2, 3}\<close>, and exactly one entry, the
  structured one, at the level debug, info, warn or error that corresponds to 0, 1, 2 or
  3 otherwise.
\<close>

theorem level_switch_on_accepted_record:
  "accepted (log_input logMsg) \<longrightarrow>
     (Level logMsg \<notin> {0, 1, 2, 3} \<longrightarrow> logs_read logMsg = []) \<and>
     (Level logMsg \<in> {0, 1, 2, 3} \<longrightarrow>
        (\<exists>e. logs_read logMsg = [e] \<and> Some (entry_level e) = spec_level (Level logMsg) \<and>
           is_ebpf_log e))"
proof
  assume "accepted (log_input logMsg)"
  from logs_read_accepted [OF this] obtain body n1 n2 n3 where
    l: "logs_read logMsg =
          (case spec_level (Level logMsg) of
             None \<Rightarrow> []
           | Some lvl \<Rightarrow>
               [ebpf_log lvl (take (findEndIndex (FuncName logMsg)) (FuncName logMsg))
                  (bpfLogMessage.Pid logMsg)
                  [(n1, Arg1 logMsg), (n2, Arg2 logMsg), (n3, Arg3 logMsg)] body])"
    by blast
  show "(Level logMsg \<notin> {0, 1, 2, 3} \<longrightarrow> logs_read logMsg = []) \<and>
     (Level logMsg \<in> {0, 1, 2, 3} \<longrightarrow>
        (\<exists>e. logs_read logMsg = [e] \<and> Some (entry_level e) = spec_level (Level logMsg) \<and>
           is_ebpf_log e))"
    unfolding l by (auto simp add: spec_level_def ebpf_log_def is_ebpf_log_def)
qed

theorem level_switch_on_accepted_record_witness:
  "accepted (log_input (scenario_log 9 ''read done -- fd|len|cpu'')) \<and>
   Level (scenario_log 9 ''read done -- fd|len|cpu'') \<notin> {0, 1, 2, 3} \<and>
   logs_read (scenario_log 9 ''read done -- fd|len|cpu'') = [] \<and>
   accepted (log_input (scenario_log 2 ''read done -- fd|len|cpu'')) \<and>
   Level (scenario_log 2 ''read done -- fd|len|cpu'') \<in> {0, 1, 2, 3} \<and>
   map entry_level (logs_read (scenario_log 2 ''read done -- fd|len|cpu'')) = [WarnLevel]"
proof -
  let ?nine = "scenario_log 9 ''read done -- fd|len|cpu''"
  let ?two = "scenario_log 2 ''read done -- fd|len|cpu''"
  have a: "accepted (log_input ?nine)" "accepted (log_input ?two)"
    by (simp_all add: input_valid accepted_valid)
  have l: "Level ?nine \<notin> {0, 1, 2, 3}" "Level ?two \<in> {0, 1, 2, 3}"
    "spec_level (Level ?two) = Some WarnLevel"
    by (simp_all add: scenario_log_def spec_level_def)
  from level_switch_on_accepted_record [of ?nine] a l
  have 1: "logs_read ?nine = []" by blast
  from level_switch_on_accepted_record [of ?two] a l
  have 2: "\<exists>e. logs_read ?two = [e] \<and> entry_level e = WarnLevel"
    by auto
  from a l 1 2 show ?thesis by auto
qed

subsection \<open>C9: the file descriptor in the TLS debug entry\<close>

text \<open>
  C9: for every L7 record with \<open>is_tls\<close> true there is one debug entry, whose \<open>fd\<close>
  field is the 16-bit truncation of the 64-bit file descriptor, that is, its value modulo
  \<open>2 ^ 16\<close>, while the event sent on the channel carries the full descriptor.
\<close>

theorem tls_debug_log_truncates_fd:
  "uint8ToBool (IsTls r) \<longrightarrow>
     (\<exists>e. l7_event_logs r = [e] \<and> entry_level e = DebugLevel \<and>
        lookup_Uint16 ''fd'' (entry_fields e) = Some (ucast (bpfL7Event.Fd r)) \<and>
        unat (ucast (bpfL7Event.Fd r) :: 16 word) = unat (bpfL7Event.Fd r) mod 2 ^ 16) \<and>
     L7Event.Fd (l7_event_sent r) = bpfL7Event.Fd r"
  by (simp add: l7_event_logs_def l7_event_sent_def l7_tls_log_def Let_def unsigned_ucast_eq take_bit_eq_mod)

theorem tls_debug_log_truncates_fd_witness:
  "uint8ToBool (IsTls scenario_amqp_tls) \<and>
   bpfL7Event.Fd scenario_amqp_tls = 65548 \<and>
   map (lookup_Uint16 ''fd'' \<circ> entry_fields) (l7_event_logs scenario_amqp_tls) = [Some 12] \<and>
   L7Event.Fd (l7_event_sent scenario_amqp_tls) = 65548"
proof -
  have h: "uint8ToBool (IsTls scenario_amqp_tls)"
    and f: "bpfL7Event.Fd scenario_amqp_tls = 65548"
    by (simp_all add: scenario_amqp_tls_def uint8ToBool_def)
  have u: "(ucast (65548 :: 64 word) :: 16 word) = 12"
    by simp
  from tls_debug_log_truncates_fd [of scenario_amqp_tls] h f u show ?thesis
    by auto
qed

subsection \<open>C10: the payload in the TLS debug entry\<close>

text \<open>
  C10: for every L7 record with \<open>is_tls\<close> true the \<open>payload\<close> field of the debug entry
  is the whole payload buffer; when the buffer has its 512 bytes and \<open>payload_size\<close> is
  smaller, this is not the prefix of \<open>payload_size\<close> bytes.
\<close>

theorem tls_debug_log_carries_whole_payload:
  "uint8ToBool (IsTls r) \<longrightarrow>
     (\<exists>e. l7_event_logs r = [e] \<and>
        lookup_Str ''payload'' (entry_fields e) = Some (bpfL7Event.Payload r) \<and>
        (length (bpfL7Event.Payload r) = 512 \<and> unat (bpfL7Event.PayloadSize r) < 512 \<longrightarrow>
           lookup_Str ''payload'' (entry_fields e) \<noteq>
             Some (take (unat (bpfL7Event.PayloadSize r)) (bpfL7Event.Payload r))))"
proof -
  have "p \<noteq> take n p" if "length p = 512" and "n < 512" for p :: bytes and n
  proof -
    from that have "length (take n p) < length p" by simp
    then show ?thesis by (metis less_irrefl)
  qed
  then show ?thesis
    by (simp add: l7_event_logs_def l7_tls_log_def Let_def)
qed

theorem tls_debug_log_carries_whole_payload_witness:
  "uint8ToBool (IsTls scenario_amqp_tls) \<and>
   length (bpfL7Event.Payload scenario_amqp_tls) = 512 \<and>
   unat (bpfL7Event.PayloadSize scenario_amqp_tls) = 3 \<and>
   map (lookup_Str ''payload'' \<circ> entry_fields) (l7_event_logs scenario_amqp_tls) =
     [Some (''abc'' @ replicate 509 (CHR 0x00))]"
proof -
  have h: "uint8ToBool (IsTls scenario_amqp_tls)"
    and l: "length (bpfL7Event.Payload scenario_amqp_tls) = 512"
    and s: "unat (bpfL7Event.PayloadSize scenario_amqp_tls) = 3"
    and p: "bpfL7Event.Payload scenario_amqp_tls = ''abc'' @ replicate 509 (CHR 0x00)"
    by (simp_all add: scenario_amqp_tls_def uint8ToBool_def c_string_def)
  from tls_debug_log_carries_whole_payload [of scenario_amqp_tls] h l s p show ?thesis
    by auto
qed

end
